theory Spec2Isabelle
  imports Main "HOL-Library.Char_ord" "HOL-Library.List_Lexorder"
begin

section \<open>The notebook backend (Backend/fastapi_app.py)\<close>

text \<open>
  The backend keeps three module-level dictionaries (\<open>documents\<close>,
  \<open>multi_chat_histories\<close>, \<open>merged_vector_stores\<close>), two storage
  roots on disk (\<open>uploads/\<close>, \<open>embeddings/\<close>) and one SQLite table
  (\<open>pdf_metadata\<close>). The handlers mutate them; here every handler takes the state and
  returns the new one next to its result. A Python exception does not roll anything back,
  so a handler returns \<open>(error + result) \<times> state\<close>: the state is the one reached when
  the exception left the handler.

  Conventions. A \<open>string\<close> stands for a Python \<open>str\<close>, one \<open>char\<close> per
  character; the order of \<open>HOL-Library.List_Lexorder\<close> over \<open>HOL-Library.Char_ord\<close>
  is Python's order on \<open>str\<close> (lexicographic by character code, a proper prefix first).

  The disk. A document id and a file name are any strings, and the code pastes them into
  paths (\<open>f"embeddings/{id}"\<close>, \<open>f"uploads/{id}/{filename}"\<close>). The state holds what the
  process sees through such a path, for every string: \<open>embeddings_dir s id\<close> is the
  content that \<open>FAISS.load_local\<close> returns for \<open>embeddings/<id>\<close> (\<open>None\<close> when it
  raises), \<open>unloadable s id\<close> says that \<open>embeddings/<id>\<close> exists although
  \<open>load_local\<close> raises on it (the storage root itself, for the empty id), and
  \<open>uploads_dir s id\<close> is \<open>Some dir\<close> when \<open>uploads/<id>\<close> exists, with \<open>dir name\<close>
  the bytes read from \<open>uploads/<id>/<name>\<close>. Reading is therefore exact for every
  string. What a write does to these views (which other ids name the same directory, which
  paths are refused) is the operating system's business and a parameter.
\<close>

subsection \<open>Errors\<close>

text \<open>
  \<open>HTTPException n\<close> is \<open>raise HTTPException(status_code=n, ...)\<close> (the detail string
  is dropped). The others are exceptions that no handler catches and that are no
  \<open>HTTPException\<close>: \<open>IndexError\<close> from indexing an empty list, \<open>LoadError\<close> from
  \<open>FAISS.load_local\<close> on a path that holds no index, \<open>IntegrityError\<close> from
  an \<open>INSERT\<close> that repeats the primary key, \<open>CollaboratorError\<close> from the embedding
  or completion service, \<open>OSError\<close> from \<open>os.makedirs\<close>, \<open>open\<close>,
  \<open>os.path.getsize\<close>, \<open>save_local\<close> or \<open>shutil.rmtree\<close>.
\<close>

datatype error =
    HTTPException nat
  | IndexError
  | LoadError
  | IntegrityError
  | CollaboratorError
  | OSError

subsection \<open>State\<close>

type_synonym addr = nat

type_synonym turn = "string \<times> string"

record doc_entry =
  vector_store :: addr
  chat_history :: "turn list"

record meta_row =
  meta_filename :: string
  upload_date :: string
  meta_size :: nat

text \<open>
  FAISS objects are mutable and shared by reference (\<open>merge_from\<close> changes its receiver),
  so they live in an explicit store: \<open>heap s ! a\<close> is the content of the object at
  address \<open>a\<close>, a new object takes the next address, and the dictionaries hold addresses.
  The type \<open>'v\<close> is the content of an index.
\<close>

record 'v state =
  documents :: "string \<rightharpoonup> doc_entry"
  multi_chat_histories :: "string list \<rightharpoonup> turn list"
  merged_vector_stores :: "string list \<rightharpoonup> addr"
  heap :: "'v list"
  embeddings_dir :: "string \<rightharpoonup> 'v"
  unloadable :: "string \<Rightarrow> bool"
  uploads_dir :: "string \<rightharpoonup> (string \<rightharpoonup> string)"
  pdf_metadata :: "string \<rightharpoonup> meta_row"
  ticks :: nat

text \<open>The three views of the disk on their own, as the operating system gets and returns them.\<close>

record 'v disk =
  saved_indexes :: "string \<rightharpoonup> 'v"
  other_paths :: "string \<Rightarrow> bool"
  upload_folders :: "string \<rightharpoonup> (string \<rightharpoonup> string)"

definition disk_of :: "'v state \<Rightarrow> 'v disk" where
  "disk_of s =
     \<lparr>saved_indexes = embeddings_dir s, other_paths = unloadable s,
      upload_folders = uploads_dir s\<rparr>"

definition with_disk :: "'v disk \<Rightarrow> 'v state \<Rightarrow> 'v state" where
  "with_disk k s =
     s\<lparr>embeddings_dir := saved_indexes k, unloadable := other_paths k,
       uploads_dir := upload_folders k\<rparr>"

datatype storage_root = Uploads | Embeddings

text \<open>
  The libraries and services the module calls are parameters: \<open>uuid4\<close> and \<open>utcnow\<close>
  give the value drawn at the \<open>n\<close>-th draw (\<open>ticks\<close> counts the draws),
  \<open>to_markdown\<close> is \<open>pymupdf4llm.to_markdown\<close> on the file's bytes, \<open>split_text\<close> the
  text splitter, \<open>from_texts\<close> the embedding call with the index construction,
  \<open>merge_from\<close> the content of the receiver after \<open>base.merge_from(other)\<close>,
  \<open>ranking\<close> the chunks of an index in decreasing similarity to a question, \<open>llm\<close>
  the completion. \<open>None\<close> is an exception raised by the collaborator.

  The writes to the disk are parameters too. Each takes the disk and returns whether the
  call returned (\<open>False\<close>: it raised) and the disk it leaves:
  \<open>os_makedirs id\<close> is \<open>os.makedirs(f"uploads/{id}", exist_ok=True)\<close>,
  \<open>os_write id name bytes\<close> is lines 190-191 on \<open>uploads/<id>/<name>\<close>,
  \<open>os_save_local id v\<close> is \<open>vs.save_local(f"embeddings/{id}")\<close>, and
  \<open>os_rmtree root id\<close> is \<open>shutil.rmtree\<close> of \<open><root>/<id>\<close>.
\<close>

record 'v env =
  uuid4 :: "nat \<Rightarrow> string"
  utcnow :: "nat \<Rightarrow> string"
  to_markdown :: "string \<Rightarrow> string option"
  split_text :: "string \<Rightarrow> string list"
  from_texts :: "string list \<Rightarrow> 'v option"
  merge_from :: "'v \<Rightarrow> 'v \<Rightarrow> 'v"
  ranking :: "'v \<Rightarrow> string \<Rightarrow> string list option"
  llm :: "string list \<Rightarrow> string \<Rightarrow> turn list \<Rightarrow> string option"
  os_makedirs :: "string \<Rightarrow> 'v disk \<Rightarrow> bool \<times> 'v disk"
  os_write :: "string \<Rightarrow> string \<Rightarrow> string \<Rightarrow> 'v disk \<Rightarrow> bool \<times> 'v disk"
  os_save_local :: "string \<Rightarrow> 'v \<Rightarrow> 'v disk \<Rightarrow> bool \<times> 'v disk"
  os_rmtree :: "storage_root \<Rightarrow> string \<Rightarrow> 'v disk \<Rightarrow> bool \<times> 'v disk"

text \<open>
  Lines 86-89 and 22-43: what a fresh process starts with, on a disk that holds nothing
  but the two storage roots, which lines 22-23 create and which the empty id names.
\<close>

definition initial_state :: "'v state" where
  "initial_state =
     \<lparr>documents = Map.empty, multi_chat_histories = Map.empty,
      merged_vector_stores = Map.empty, heap = [],
      embeddings_dir = Map.empty, unloadable = (\<lambda>p. p = []),
      uploads_dir = [[] \<mapsto> Map.empty],
      pdf_metadata = Map.empty, ticks = 0\<rparr>"

text \<open>
  A restart of the process runs the module's top level again: the three dictionaries are
  empty, no FAISS object exists, the disk and the table are as they were.
\<close>

definition module_init :: "'v state \<Rightarrow> 'v state" where
  "module_init s =
     s\<lparr>documents := Map.empty, multi_chat_histories := Map.empty,
       merged_vector_stores := Map.empty, heap := []\<rparr>"

subsection \<open>Loading an index\<close>

definition alloc :: "'v \<Rightarrow> 'v state \<Rightarrow> addr \<times> 'v state" where
  "alloc v s = (length (heap s), s\<lparr>heap := heap s @ [v]\<rparr>)"

text \<open>
  \<open>FAISS.load_local(f"embeddings/{doc_id}", ...)\<close>: a new object with the persisted
  content, or the loader's exception.
\<close>

definition load_local :: "string \<Rightarrow> 'v state \<Rightarrow> (error + addr) \<times> 'v state" where
  "load_local doc_id s =
     (case embeddings_dir s doc_id of
        None \<Rightarrow> (Inl LoadError, s)
      | Some v \<Rightarrow> (case alloc v s of (a, s') \<Rightarrow> (Inr a, s')))"

text \<open>
  \<open>os.path.exists(f"embeddings/{document_id}")\<close>: a path that can be loaded exists, and
  so does one that is there without holding an index.
\<close>

definition embeddings_exists :: "'v state \<Rightarrow> string \<Rightarrow> bool" where
  "embeddings_exists s document_id \<longleftrightarrow>
     embeddings_dir s document_id \<noteq> None \<or> unloadable s document_id"

text \<open>Lines 161-168: the dictionary, then the test of line 163, then the load of line 166.\<close>

definition load_vector_store :: "string \<Rightarrow> 'v state \<Rightarrow> (error + addr) \<times> 'v state" where
  "load_vector_store document_id s =
     (case documents s document_id of
        Some e \<Rightarrow> (Inr (vector_store e), s)
      | None \<Rightarrow>
          if \<not> embeddings_exists s document_id then (Inl (HTTPException 404), s)
          else (case load_local document_id s of
                  (Inl err, s') \<Rightarrow> (Inl err, s')
                | (Inr vs, s') \<Rightarrow>
                    (Inr vs,
                     s'\<lparr>documents := (documents s')
                          (document_id \<mapsto> \<lparr>vector_store = vs, chat_history = []\<rparr>)\<rparr>)))"

subsection \<open>The query handler\<close>

record query_request =
  document_ids :: "string list"
  query :: string

record query_response =
  answer :: string
  sources :: "string list"

text \<open>Line 233: \<open>tuple(sorted(set(request.document_ids)))\<close>.\<close>

definition canonical_key :: "string list \<Rightarrow> string list" where
  "canonical_key ids = sorted_list_of_set (set ids)"

text \<open>Lines 244-247: the list comprehension, one \<open>load_local\<close> per id, left to right.\<close>

fun load_all :: "string list \<Rightarrow> 'v state \<Rightarrow> (error + addr list) \<times> 'v state" where
  "load_all [] s = (Inr [], s)"
| "load_all (doc_id # rest) s =
     (case load_local doc_id s of
        (Inl err, s') \<Rightarrow> (Inl err, s')
      | (Inr a, s') \<Rightarrow>
          (case load_all rest s' of
             (Inl err, s'') \<Rightarrow> (Inl err, s'')
           | (Inr as, s'') \<Rightarrow> (Inr (a # as), s'')))"

text \<open>Lines 249-250: \<open>for other_vs in vector_stores[1:]: base_vs.merge_from(other_vs)\<close>.\<close>

fun merge_loop :: "'v env \<Rightarrow> addr \<Rightarrow> addr list \<Rightarrow> 'v state \<Rightarrow> 'v state" where
  "merge_loop env base_vs [] s = s"
| "merge_loop env base_vs (other_vs # rest) s =
     merge_loop env base_vs rest
       (s\<lparr>heap := (heap s)[base_vs := merge_from env (heap s ! base_vs) (heap s ! other_vs)]\<rparr>)"

text \<open>
  Lines 234-252, on the canonical key: the index the query runs on. The spec calls this
  step \<open>resolve\<close>. The handler merges by itself: it does not call
  \<open>merge_vector_stores\<close> (lines 132-149), so neither the 400 of that function on an empty
  list nor its skip of the receiver applies here.
\<close>

definition resolve :: "'v env \<Rightarrow> string list \<Rightarrow> 'v state \<Rightarrow> (error + addr) \<times> 'v state" where
  "resolve env ids s =
     (if length ids = 1 then load_vector_store (hd ids) s
      else
        (case merged_vector_stores s ids of
           Some vs \<Rightarrow> (Inr vs, s)
         | None \<Rightarrow>
             (case load_all ids s of
                (Inl err, s') \<Rightarrow> (Inl err, s')
              | (Inr vector_stores, s') \<Rightarrow>
                  (case vector_stores of
                     [] \<Rightarrow> (Inl IndexError, s')
                   | base_vs # others \<Rightarrow>
                       (let s'' = merge_loop env base_vs others s'
                        in (Inr base_vs,
                            s''\<lparr>merged_vector_stores :=
                                  (merged_vector_stores s'')(ids \<mapsto> base_vs)\<rparr>))))))"

text \<open>
  Line 258: the retriever, \<open>search_kwargs={"k": 4}\<close> passed as \<open>k\<close>: the first \<open>k\<close>
  chunks of the similarity ranking.
\<close>

definition similarity_search :: "'v env \<Rightarrow> 'v \<Rightarrow> string \<Rightarrow> nat \<Rightarrow> string list option" where
  "similarity_search env vs question k = map_option (take k) (ranking env vs question)"

text \<open>
  What \<open>result.get("context", [])\<close> can be, as far as lines 291-295 tell the cases
  apart: an object with \<open>get_content\<close>, a list, anything else. An element of the list has
  \<open>page_content\<close> or is shown through \<open>str\<close>.
\<close>

datatype source_doc = Document string | Plain string

datatype chain_context = WithContent string | DocList "source_doc list" | Opaque

text \<open>Lines 259-279: the retrieval chain. Its context is the list of retrieved chunks.\<close>

definition qa_chain_invoke ::
  "'v env \<Rightarrow> 'v \<Rightarrow> string \<Rightarrow> turn list \<Rightarrow> error + (string \<times> chain_context)" where
  "qa_chain_invoke env vs input history =
     (case similarity_search env vs input 4 of
        None \<Rightarrow> Inl CollaboratorError
      | Some docs \<Rightarrow>
          (case llm env docs input history of
             None \<Rightarrow> Inl CollaboratorError
           | Some a \<Rightarrow> Inr (a, DocList (map Document docs))))"

text \<open>Lines 290-295.\<close>

fun snippet :: "source_doc \<Rightarrow> string" where
  "snippet (Document page_content) = take 100 page_content @ ''...''"
| "snippet (Plain str) = take 100 str @ ''...''"

fun extract_sources :: "chain_context \<Rightarrow> string list" where
  "extract_sources (WithContent c) = [take 100 c @ ''...'']"
| "extract_sources (DocList docs) = map snippet docs"
| "extract_sources Opaque = []"

definition query_document ::
  "'v env \<Rightarrow> query_request \<Rightarrow> 'v state \<Rightarrow> (error + query_response) \<times> 'v state" where
  "query_document env request s =
     (let ids = canonical_key (document_ids request) in
      case resolve env ids s of
        (Inl err, s1) \<Rightarrow> (Inl err, s1)
      | (Inr vs, s1) \<Rightarrow>
          (let chat_key = ids;
               history = (case multi_chat_histories s1 chat_key of None \<Rightarrow> [] | Some h \<Rightarrow> h)
           in case qa_chain_invoke env (heap s1 ! vs) (query request) history of
                Inl err \<Rightarrow> (Inl err, s1)
              | Inr (a, source_documents) \<Rightarrow>
                  (Inr \<lparr>answer = a, sources = extract_sources source_documents\<rparr>,
                   s1\<lparr>multi_chat_histories :=
                        (multi_chat_histories s1)(chat_key \<mapsto> history @ [(query request, a)])\<rparr>)))"


subsection \<open>The upload handler\<close>

record upload_file =
  filename :: string
  file_bytes :: string

record pdf_upload_response =
  document_id :: string
  message :: string

text \<open>
  A file path \<open>uploads/<document_id>/<filename>\<close> is the pair of its directory and its
  name. A background task is the argument pair of \<open>process_pdf\<close>.
\<close>

type_synonym path = "string \<times> string"

type_synonym task = "path \<times> string"

text \<open>
  \<open>str.lower\<close> on the letters \<open>A\<close> to \<open>Z\<close>; no other character lowers to one of
  \<open>.\<close>, \<open>p\<close>, \<open>d\<close>, \<open>f\<close>, so the test of line 185 is the same.
\<close>

definition lower_char :: "char \<Rightarrow> char" where
  "lower_char c =
     (if CHR ''A'' \<le> c \<and> c \<le> CHR ''Z'' then char_of (of_char c + (32::nat)) else c)"

definition lower :: "string \<Rightarrow> string" where
  "lower s = map lower_char s"

definition endswith :: "string \<Rightarrow> string \<Rightarrow> bool" where
  "endswith s suffix =
     (length suffix \<le> length s \<and> drop (length s - length suffix) s = suffix)"

text \<open>\<open>os.path.getsize(file_path)\<close>: the size of the file that is seen at the path.\<close>

definition getsize :: "'v state \<Rightarrow> path \<Rightarrow> nat option" where
  "getsize s file_path =
     (case uploads_dir s (fst file_path) of
        None \<Rightarrow> None
      | Some dir \<Rightarrow> map_option length (dir (snd file_path)))"

text \<open>
  Lines 188-193: the directory, the file, its size. Each of the three calls can raise, and
  what the calls before it did to the disk stays.
\<close>

definition store_file ::
  "'v env \<Rightarrow> path \<Rightarrow> string \<Rightarrow> 'v state \<Rightarrow> (error + nat) \<times> 'v state" where
  "store_file env file_path bytes s =
     (case os_makedirs env (fst file_path) (disk_of s) of
        (False, k) \<Rightarrow> (Inl OSError, with_disk k s)
      | (True, k) \<Rightarrow>
          (case os_write env (fst file_path) (snd file_path) bytes k of
             (False, k') \<Rightarrow> (Inl OSError, with_disk k' s)
           | (True, k') \<Rightarrow>
               (case getsize (with_disk k' s) file_path of
                  None \<Rightarrow> (Inl OSError, with_disk k' s)
                | Some file_size \<Rightarrow> (Inr file_size, with_disk k' s))))"

text \<open>
  Lines 185-201, the body of the loop for one file: its response and its task, or the
  exception. Line 195 raises on a document id that the table already has.
\<close>

definition upload_one ::
  "'v env \<Rightarrow> upload_file \<Rightarrow> 'v state \<Rightarrow> (error + pdf_upload_response \<times> task) \<times> 'v state" where
  "upload_one env f s =
     (if \<not> endswith (lower (filename f)) ''.pdf'' then (Inl (HTTPException 400), s)
      else
        (let doc_id = uuid4 env (ticks s);
             file_path = (doc_id, filename f)
         in case store_file env file_path (file_bytes f) (s\<lparr>ticks := Suc (ticks s)\<rparr>) of
              (Inl err, s1) \<Rightarrow> (Inl err, s1)
            | (Inr file_size, s1) \<Rightarrow>
                if pdf_metadata s1 doc_id \<noteq> None then (Inl IntegrityError, s1)
                else
                  (Inr (\<lparr>document_id = doc_id,
                          message = ''PDF '' @ [CHR 0x27] @ filename f @ [CHR 0x27]
                                    @ '' uploaded and processing started''\<rparr>,
                        (file_path, doc_id)),
                   s1\<lparr>pdf_metadata := (pdf_metadata s1)
                        (doc_id \<mapsto> \<lparr>meta_filename = filename f,
                                     upload_date = utcnow env (ticks s),
                                     meta_size = file_size\<rparr>)\<rparr>)))"

text \<open>
  Lines 183-202. \<open>results\<close> and \<open>background_tasks\<close> are the two lists the loop appends
  to; an exception leaves the handler with the tasks added so far.
\<close>

fun upload_loop ::
  "'v env \<Rightarrow> upload_file list \<Rightarrow> pdf_upload_response list \<Rightarrow> task list \<Rightarrow> 'v state
   \<Rightarrow> (error + pdf_upload_response list) \<times> task list \<times> 'v state" where
  "upload_loop env [] results background_tasks s = (Inr results, background_tasks, s)"
| "upload_loop env (f # files) results background_tasks s =
     (case upload_one env f s of
        (Inl err, s1) \<Rightarrow> (Inl err, background_tasks, s1)
      | (Inr (response, t), s1) \<Rightarrow>
          upload_loop env files (results @ [response]) (background_tasks @ [t]) s1)"

definition upload_pdf ::
  "'v env \<Rightarrow> upload_file list \<Rightarrow> 'v state
   \<Rightarrow> (error + pdf_upload_response list) \<times> task list \<times> 'v state" where
  "upload_pdf env files s = upload_loop env files [] [] s"

subsection \<open>Background processing\<close>

text \<open>Lines 91-104: a file that is not there, or one the extractor rejects, is a 500.\<close>

definition extract_text :: "'v env \<Rightarrow> path \<Rightarrow> 'v state \<Rightarrow> error + string" where
  "extract_text env pdf_path s =
     (case uploads_dir s (fst pdf_path) of
        None \<Rightarrow> Inl (HTTPException 500)
      | Some dir \<Rightarrow>
          (case dir (snd pdf_path) of
             None \<Rightarrow> Inl (HTTPException 500)
           | Some bytes \<Rightarrow>
               (case to_markdown env bytes of
                  None \<Rightarrow> Inl (HTTPException 500)
                | Some text \<Rightarrow> Inr text)))"

text \<open>
  Lines 106-119: the index object is built, then saved under
  \<open>embeddings/<document_id>\<close>.
\<close>

definition create_vector_store ::
  "'v env \<Rightarrow> string \<Rightarrow> string \<Rightarrow> 'v state \<Rightarrow> (error + addr) \<times> 'v state" where
  "create_vector_store env text doc_id s =
     (let chunks = split_text env text in
      case from_texts env chunks of
        None \<Rightarrow> (Inl CollaboratorError, s)
      | Some v \<Rightarrow>
          (case alloc v s of
             (vs, s') \<Rightarrow>
               (case os_save_local env doc_id v (disk_of s') of
                  (False, k) \<Rightarrow> (Inl OSError, with_disk k s')
                | (True, k) \<Rightarrow> (Inr vs, with_disk k s'))))"

definition process_pdf :: "'v env \<Rightarrow> task \<Rightarrow> 'v state \<Rightarrow> (error + unit) \<times> 'v state" where
  "process_pdf env t s =
     (case t of
        (file_path, doc_id) \<Rightarrow>
          (case extract_text env file_path s of
             Inl err \<Rightarrow> (Inl err, s)
           | Inr text \<Rightarrow>
               (case create_vector_store env text doc_id s of
                  (Inl err, s') \<Rightarrow> (Inl err, s')
                | (Inr vs, s') \<Rightarrow>
                    (Inr (),
                     s'\<lparr>documents := (documents s')
                          (doc_id \<mapsto> \<lparr>vector_store = vs, chat_history = []\<rparr>)\<rparr>))))"

subsection \<open>The delete handler\<close>

text \<open>
  Lines 315-318, for one of the two roots: the directory is removed when the path exists.
\<close>

definition remove_tree ::
  "'v env \<Rightarrow> storage_root \<Rightarrow> string \<Rightarrow> 'v state \<Rightarrow> (error + unit) \<times> 'v state" where
  "remove_tree env root doc_id s =
     (if (case root of
            Uploads \<Rightarrow> uploads_dir s doc_id \<noteq> None
          | Embeddings \<Rightarrow> embeddings_exists s doc_id)
      then (case os_rmtree env root doc_id (disk_of s) of
              (False, k) \<Rightarrow> (Inl OSError, with_disk k s)
            | (True, k) \<Rightarrow> (Inr (), with_disk k s))
      else (Inr (), s))"

text \<open>
  Lines 310-320: the table row, then the two directories. Nothing else is touched: the
  three dictionaries are as before.
\<close>

definition delete_document ::
  "'v env \<Rightarrow> string \<Rightarrow> 'v state \<Rightarrow> (error + string) \<times> 'v state" where
  "delete_document env doc_id s =
     (case remove_tree env Uploads doc_id
             (s\<lparr>pdf_metadata := (pdf_metadata s)(doc_id := None)\<rparr>) of
        (Inl err, s1) \<Rightarrow> (Inl err, s1)
      | (Inr _, s1) \<Rightarrow>
          (case remove_tree env Embeddings doc_id s1 of
             (Inl err, s2) \<Rightarrow> (Inl err, s2)
           | (Inr _, s2) \<Rightarrow> (Inr (''Document '' @ doc_id @ '' deleted successfully''), s2)))"

subsection \<open>The states the server can be in\<close>

text \<open>
  From a first start on any disk, any sequence of requests, background tasks and restarts.
  A background task may run with any argument, which covers the tasks that uploads
  schedule.
\<close>

inductive reachable :: "'v env \<Rightarrow> 'v state \<Rightarrow> bool" for env :: "'v env" where
  init: "reachable env (with_disk k initial_state)"
| restart: "reachable env s \<Longrightarrow> reachable env (module_init s)"
| upload: "reachable env s \<Longrightarrow> reachable env (snd (snd (upload_pdf env files s)))"
| process: "reachable env s \<Longrightarrow> reachable env (snd (process_pdf env t s))"
| query: "reachable env s \<Longrightarrow> reachable env (snd (query_document env request s))"
| delete: "reachable env s \<Longrightarrow> reachable env (snd (delete_document env doc_id s))"

subsection \<open>Well-formed states\<close>

text \<open>
  Every address held by \<open>documents\<close> or \<open>merged_vector_stores\<close> is the address of an
  object, and the empty key has no merged index.
\<close>

definition well_formed :: "'v state \<Rightarrow> bool" where
  "well_formed s \<longleftrightarrow>
     (\<forall>d e. documents s d = Some e \<longrightarrow> vector_store e < length (heap s)) \<and>
     (\<forall>k a. merged_vector_stores s k = Some a \<longrightarrow> a < length (heap s)) \<and>
     merged_vector_stores s [] = None"

subsection \<open>Notions for the upload handler\<close>

text \<open>Line 185, the test that a file passes.\<close>

definition is_pdf :: "upload_file \<Rightarrow> bool" where
  "is_pdf f = endswith (lower (filename f)) ''.pdf''"

text \<open>The ids that \<open>n\<close> calls of \<open>uuid4\<close> give, the first being draw number \<open>t\<close>.\<close>

definition drawn_ids :: "'v env \<Rightarrow> nat \<Rightarrow> nat \<Rightarrow> string list" where
  "drawn_ids env t n = map (\<lambda>i. uuid4 env (t + i)) [0..<n]"

text \<open>The response and the task of a file that got the id \<open>doc_id\<close> (lines 200-201).\<close>

definition response_for :: "string \<Rightarrow> upload_file \<Rightarrow> pdf_upload_response" where
  "response_for doc_id f =
     \<lparr>document_id = doc_id,
      message = ''PDF '' @ [CHR 0x27] @ filename f @ [CHR 0x27]
                @ '' uploaded and processing started''\<rparr>"

definition task_for :: "string \<Rightarrow> upload_file \<Rightarrow> task" where
  "task_for doc_id f = ((doc_id, filename f), doc_id)"

text \<open>The state in which the handler leaves, whatever it returns or raises.\<close>

definition after_upload :: "'v env \<Rightarrow> upload_file list \<Rightarrow> 'v state \<Rightarrow> 'v state" where
  "after_upload env files s = snd (snd (upload_pdf env files s))"

subsection \<open>A concrete environment\<close>

text \<open>
  The operating system of the concrete run reads a path the way a POSIX system does for
  the simple cases: it splits at \<open>/\<close> and drops the empty components and the
  components \<open>.\<close>, so that \<open>d\<close>, \<open>d/\<close> and \<open>./d\<close> name the same place. An id or a
  file name then names the directory it is pasted under (\<open>Root\<close>), an entry of that
  directory (\<open>Entry\<close>), or something deeper or outside (\<open>Beyond\<close>). This system holds
  nothing beyond the entries: reading such a path finds nothing and writing to it is
  refused, as it is on a POSIX system when the directory part of the path does not exist.
\<close>

datatype place = Root | Entry string | Beyond

fun components :: "string \<Rightarrow> string \<Rightarrow> string list" where
  "components [] cur = [rev cur]"
| "components (c # cs) cur =
     (if c = CHR ''/'' then rev cur # components cs [] else components cs (c # cur))"

definition place_of :: "string \<Rightarrow> place" where
  "place_of p =
     (case filter (\<lambda>c. c \<noteq> [] \<and> c \<noteq> ''.'') (components p []) of
        [] \<Rightarrow> Root
      | [n] \<Rightarrow> if n = ''..'' then Beyond else Entry n
      | _ \<Rightarrow> Beyond)"

text \<open>A view changed at every string that names the place \<open>pl\<close>.\<close>

definition at_place :: "place \<Rightarrow> 'a \<Rightarrow> (string \<Rightarrow> 'a) \<Rightarrow> string \<Rightarrow> 'a" where
  "at_place pl x view p = (if place_of p = pl then x else view p)"

definition demo_makedirs :: "string \<Rightarrow> 'v disk \<Rightarrow> bool \<times> 'v disk" where
  "demo_makedirs p k =
     (case place_of p of
        Beyond \<Rightarrow> (False, k)
      | Root \<Rightarrow> (True, k)
      | Entry n \<Rightarrow>
          (True,
           k\<lparr>upload_folders :=
               at_place (Entry n)
                 (Some (case upload_folders k p of None \<Rightarrow> Map.empty | Some dir \<Rightarrow> dir))
                 (upload_folders k)\<rparr>))"

definition demo_write :: "string \<Rightarrow> string \<Rightarrow> string \<Rightarrow> 'v disk \<Rightarrow> bool \<times> 'v disk" where
  "demo_write p name bytes k =
     (case (place_of p, place_of name, upload_folders k p) of
        (Entry n, Entry m, Some dir) \<Rightarrow>
          (True,
           k\<lparr>upload_folders :=
               at_place (Entry n) (Some (at_place (Entry m) (Some bytes) dir))
                 (upload_folders k)\<rparr>)
      | _ \<Rightarrow> (False, k))"

definition demo_save_local :: "string \<Rightarrow> 'v \<Rightarrow> 'v disk \<Rightarrow> bool \<times> 'v disk" where
  "demo_save_local p v k =
     (case place_of p of
        Entry n \<Rightarrow>
          (True,
           k\<lparr>saved_indexes := at_place (Entry n) (Some v) (saved_indexes k),
             other_paths := at_place (Entry n) False (other_paths k)\<rparr>)
      | _ \<Rightarrow> (False, k))"

definition demo_rmtree :: "storage_root \<Rightarrow> string \<Rightarrow> 'v disk \<Rightarrow> bool \<times> 'v disk" where
  "demo_rmtree root p k =
     (case place_of p of
        Entry n \<Rightarrow>
          (True,
           case root of
             Uploads \<Rightarrow> k\<lparr>upload_folders := at_place (Entry n) None (upload_folders k)\<rparr>
           | Embeddings \<Rightarrow>
               k\<lparr>saved_indexes := at_place (Entry n) None (saved_indexes k),
                 other_paths := at_place (Entry n) False (other_paths k)\<rparr>)
      | _ \<Rightarrow> (False, k))"

text \<open>The disk of a first start: the two storage roots, under every string that names them.\<close>

definition demo_disk :: "'v disk" where
  "demo_disk =
     \<lparr>saved_indexes = Map.empty,
      other_paths = (\<lambda>p. place_of p = Root),
      upload_folders = (\<lambda>p. if place_of p = Root then Some Map.empty else None)\<rparr>"

text \<open>
  The environment: the content of an index is the list of its chunks, the splitter returns
  the text as one chunk, merging appends, the ranking is the order of the index, and the
  completion echoes the question.
\<close>

definition demo_env :: "string list env" where
  "demo_env =
     \<lparr>uuid4 = (\<lambda>n. ''d'' @ replicate n CHR ''0''), utcnow = (\<lambda>n. ''2024''),
      to_markdown = Some, split_text = (\<lambda>t. [t]), from_texts = Some,
      merge_from = (@), ranking = (\<lambda>v q. Some v),
      llm = (\<lambda>docs q h. Some (''re: '' @ q)),
      os_makedirs = demo_makedirs, os_write = demo_write,
      os_save_local = demo_save_local, os_rmtree = demo_rmtree\<rparr>"

subsection \<open>A concrete run\<close>

text \<open>
  Two files are uploaded and get the ids \<open>d\<close> and \<open>d0\<close>, both are processed, a query
  names both documents, and \<open>d0\<close> is deleted. \<open>demo_restarted\<close> is the state of a
  restart after the processing.
\<close>

definition file_a :: upload_file where
  "file_a = \<lparr>filename = ''a.pdf'', file_bytes = ''Paris''\<rparr>"

definition file_b :: upload_file where
  "file_b = \<lparr>filename = ''B.PDF'', file_bytes = ''Tokyo''\<rparr>"

definition file_txt :: upload_file where
  "file_txt = \<lparr>filename = ''notes.txt'', file_bytes = ''memo''\<rparr>"

definition file_sub :: upload_file where
  "file_sub = \<lparr>filename = ''sub/a.pdf'', file_bytes = ''Paris''\<rparr>"

definition demo_start :: "string list state" where
  "demo_start = with_disk demo_disk initial_state"

definition demo_uploaded :: "string list state" where
  "demo_uploaded = snd (snd (upload_pdf demo_env [file_a, file_b] demo_start))"

definition demo_ready :: "string list state" where
  "demo_ready =
     snd (process_pdf demo_env ((''d0'', ''B.PDF''), ''d0'')
       (snd (process_pdf demo_env ((''d'', ''a.pdf''), ''d'') demo_uploaded)))"

definition demo_restarted :: "string list state" where
  "demo_restarted = module_init demo_ready"

definition demo_queried :: "string list state" where
  "demo_queried =
     snd (query_document demo_env \<lparr>document_ids = [''d0'', ''d''], query = ''capital?''\<rparr>
            demo_ready)"

definition demo_deleted :: "string list state" where
  "demo_deleted = snd (delete_document demo_env ''d0'' demo_queried)"

section \<open>Facts about the operations\<close>

subsection \<open>The canonical key\<close>

lemma canonical_key_sort: "canonical_key ids = sort (remdups ids)"
  by (simp add: canonical_key_def sorted_list_of_set_sort_remdups)

lemma set_canonical_key: "set (canonical_key ids) = set ids"
  by (simp add: canonical_key_def)

lemma sorted_canonical_key: "sorted (canonical_key ids) \<and> distinct (canonical_key ids)"
  by (simp add: canonical_key_def)

lemma canonical_key_Nil: "canonical_key ids = [] \<longleftrightarrow> ids = []"
  by (metis set_canonical_key set_empty)

lemma canonical_key_single: "set ids = {d} \<Longrightarrow> canonical_key ids = [d]"
  by (simp add: canonical_key_def)

subsection \<open>Loading and merging\<close>

lemma load_local_Some:
  "embeddings_dir s d = Some v \<Longrightarrow> load_local d s = (Inr (length (heap s)), s\<lparr>heap := heap s @ [v]\<rparr>)"
  by (simp add: load_local_def alloc_def)

lemma load_local_None: "embeddings_dir s d = None \<Longrightarrow> load_local d s = (Inl LoadError, s)"
  by (simp add: load_local_def)

lemma load_all_Some:
  "map (embeddings_dir s) ids = map Some vs \<Longrightarrow>
   load_all ids s = (Inr [length (heap s) ..< length (heap s) + length ids], s\<lparr>heap := heap s @ vs\<rparr>)"
proof (induction ids arbitrary: s vs)
  case Nil
  then show ?case by simp
next
  case (Cons d ids)
  then obtain v ws where vs: "vs = v # ws" and d: "embeddings_dir s d = Some v"
    and rest: "map (embeddings_dir s) ids = map Some ws"
    by (cases vs) auto
  let ?s1 = "s\<lparr>heap := heap s @ [v]\<rparr>"
  have "map (embeddings_dir ?s1) ids = map Some ws" using rest by simp
  from Cons.IH [OF this]
  have "load_all ids ?s1 =
          (Inr [Suc (length (heap s)) ..< Suc (length (heap s)) + length ids], s\<lparr>heap := heap s @ v # ws\<rparr>)"
    by simp
  moreover have "[length (heap s) ..< length (heap s) + length (d # ids)] =
      length (heap s) # [Suc (length (heap s)) ..< Suc (length (heap s)) + length ids]"
    by (subst upt_conv_Cons) auto
  ultimately show ?case
    using d vs by (simp add: load_local_Some)
qed

lemma load_all_missing:
  "d \<in> set ids \<Longrightarrow> embeddings_dir s d = None \<Longrightarrow> fst (load_all ids s) = Inl LoadError"
proof (induction ids arbitrary: s)
  case Nil
  then show ?case by simp
next
  case (Cons x ids)
  show ?case
  proof (cases "embeddings_dir s x")
    case None
    then show ?thesis by (simp add: load_local_None)
  next
    case (Some v)
    then have xd: "x \<noteq> d" using Cons.prems by auto
    let ?s1 = "s\<lparr>heap := heap s @ [v]\<rparr>"
    have "fst (load_all ids ?s1) = Inl LoadError"
      using Cons.prems xd by (intro Cons.IH) auto
    then show ?thesis
      using Some by (auto simp: load_local_Some split: prod.splits sum.splits)
  qed
qed

lemma merge_loop_heap:
  "\<forall>a\<in>set others. a \<noteq> b \<Longrightarrow> b < length (heap s) \<Longrightarrow>
   merge_loop env b others s =
     s\<lparr>heap := (heap s)[b := foldl (merge_from env) (heap s ! b) (map ((!) (heap s)) others)]\<rparr>"
proof (induction others arbitrary: s)
  case Nil
  then show ?case by simp
next
  case (Cons a others)
  let ?s1 = "s\<lparr>heap := (heap s)[b := merge_from env (heap s ! b) (heap s ! a)]\<rparr>"
  have ne: "\<forall>x\<in>set others. x \<noteq> b" and ab: "a \<noteq> b" using Cons.prems by auto
  let ?h1 = "(heap s)[b := merge_from env (heap s ! b) (heap s ! a)]"
  have same: "map ((!) ?h1) others = map ((!) (heap s)) others"
    using ne by (auto simp: nth_list_update)
  have "merge_loop env b others ?s1 =
          ?s1\<lparr>heap := (heap ?s1)[b := foldl (merge_from env) (heap ?s1 ! b) (map ((!) (heap ?s1)) others)]\<rparr>"
    using ne Cons.prems(2) by (intro Cons.IH) auto
  then show ?case
    using Cons.prems(2) by (simp add: same)
qed

subsection \<open>The outcomes of \<open>load_vector_store\<close>\<close>

lemma load_vector_store_memory:
  "documents s d = Some e \<Longrightarrow> load_vector_store d s = (Inr (vector_store e), s)"
  by (simp add: load_vector_store_def)

lemma load_vector_store_absent:
  "documents s d = None \<Longrightarrow> embeddings_dir s d = None \<Longrightarrow> \<not> unloadable s d \<Longrightarrow>
   load_vector_store d s = (Inl (HTTPException 404), s)"
  by (simp add: load_vector_store_def embeddings_exists_def)

lemma load_vector_store_unloadable:
  "documents s d = None \<Longrightarrow> embeddings_dir s d = None \<Longrightarrow> unloadable s d \<Longrightarrow>
   load_vector_store d s = (Inl LoadError, s)"
  by (simp add: load_vector_store_def embeddings_exists_def load_local_def)

lemma load_vector_store_fails:
  "documents s d = None \<Longrightarrow> embeddings_dir s d = None \<Longrightarrow>
   \<exists>err. load_vector_store d s = (Inl err, s)"
  by (cases "unloadable s d")
    (simp_all add: load_vector_store_absent load_vector_store_unloadable)

lemma load_vector_store_disk:
  "documents s d = None \<Longrightarrow> embeddings_dir s d = Some v \<Longrightarrow>
   load_vector_store d s =
     (Inr (length (heap s)),
      s\<lparr>heap := heap s @ [v],
        documents := (documents s)(d \<mapsto> \<lparr>vector_store = length (heap s), chat_history = []\<rparr>)\<rparr>)"
  by (simp add: load_vector_store_def embeddings_exists_def load_local_Some)

lemma load_vector_store_idem:
  "load_vector_store d s = (Inr a, s') \<Longrightarrow> load_vector_store d s' = (Inr a, s')"
proof (cases "documents s d")
  case (Some e)
  assume "load_vector_store d s = (Inr a, s')"
  with Some show ?thesis by (simp add: load_vector_store_memory)
next
  case None
  assume r: "load_vector_store d s = (Inr a, s')"
  show ?thesis
  proof (cases "embeddings_dir s d")
    case None
    with \<open>documents s d = None\<close> r load_vector_store_fails [of s d] show ?thesis
      by auto
  next
    case (Some v)
    with \<open>documents s d = None\<close> r
    have "documents s' d = Some \<lparr>vector_store = a, chat_history = []\<rparr>"
      by (auto simp: load_vector_store_disk)
    then show ?thesis by (simp add: load_vector_store_memory)
  qed
qed

subsection \<open>The outcomes of \<open>resolve\<close>\<close>

lemma resolve_single: "resolve env [d] s = load_vector_store d s"
  by (simp add: resolve_def)

lemma resolve_hit:
  "length ids \<noteq> 1 \<Longrightarrow> merged_vector_stores s ids = Some a \<Longrightarrow> resolve env ids s = (Inr a, s)"
  by (simp add: resolve_def)

lemma resolve_empty:
  "merged_vector_stores s [] = None \<Longrightarrow> resolve env [] s = (Inl IndexError, s)"
  by (simp add: resolve_def)

lemma nth_fresh_block:
  "map ((!) (h @ v # vs)) [Suc (length h) ..< Suc (length h) + length vs] = vs"
  by (rule nth_equalityI) (auto simp: nth_append simp del: upt_Suc)

lemma resolve_miss:
  assumes multi: "length ids \<noteq> 1"
    and miss: "merged_vector_stores s ids = None"
    and disk: "map (embeddings_dir s) ids = map Some (v # vs)"
  shows "resolve env ids s =
     (Inr (length (heap s)),
      s\<lparr>heap := heap s @ foldl (merge_from env) v vs # vs,
        merged_vector_stores := (merged_vector_stores s)(ids \<mapsto> length (heap s))\<rparr>)"
proof -
  let ?n = "length (heap s)"
  let ?s1 = "s\<lparr>heap := heap s @ v # vs\<rparr>"
  define others where "others = [Suc ?n ..< Suc ?n + length vs]"
  have len: "length ids = Suc (length vs)"
    using disk by (metis length_map length_Cons)
  have addrs: "[?n ..< ?n + length ids] = ?n # others"
    unfolding len others_def by (subst upt_conv_Cons) auto
  have fresh: "\<forall>a\<in>set others. a \<noteq> ?n"
    by (auto simp: others_def simp del: upt_Suc)
  have contents: "map ((!) (heap s @ v # vs)) others = vs"
    unfolding others_def by (rule nth_fresh_block)
  have loaded: "load_all ids s = (Inr (?n # others), ?s1)"
    using load_all_Some [OF disk] addrs by simp
  have "merge_loop env ?n others ?s1 =
          ?s1\<lparr>heap := (heap ?s1)[?n := foldl (merge_from env) (heap ?s1 ! ?n)
             (map ((!) (heap ?s1)) others)]\<rparr>"
    using fresh by (intro merge_loop_heap) auto
  then have merged: "merge_loop env ?n others ?s1 =
          s\<lparr>heap := heap s @ foldl (merge_from env) v vs # vs\<rparr>"
    by (simp add: contents)
  show ?thesis
    using multi miss by (simp add: resolve_def loaded merged)
qed

lemma resolve_missing:
  "length ids \<noteq> 1 \<Longrightarrow> merged_vector_stores s ids = None \<Longrightarrow> d \<in> set ids \<Longrightarrow>
   embeddings_dir s d = None \<Longrightarrow> fst (resolve env ids s) = Inl LoadError"
  using load_all_missing [of d ids s]
  by (auto simp: resolve_def split: prod.splits sum.splits)

lemma persisted_contents:
  "\<forall>d\<in>set ids. embeddings_dir s d \<noteq> None \<Longrightarrow>
   map (embeddings_dir s) ids = map Some (map (\<lambda>d. the (embeddings_dir s d)) ids)"
  by auto

lemma resolve_succeeds:
  assumes "ids \<noteq> []" and "\<forall>d\<in>set ids. embeddings_dir s d \<noteq> None"
  shows "\<exists>a s'. resolve env ids s = (Inr a, s')"
proof (cases "length ids = 1")
  case True
  then obtain d where ids: "ids = [d]"
    by (cases ids) auto
  then obtain v where "embeddings_dir s d = Some v"
    using assms(2) by auto
  then show ?thesis
    unfolding ids resolve_single
    by (cases "documents s d") (simp_all add: load_vector_store_memory load_vector_store_disk)
next
  case False
  show ?thesis
  proof (cases "merged_vector_stores s ids")
    case (Some a)
    with False show ?thesis by (simp add: resolve_hit)
  next
    case None
    obtain d ds where ids: "ids = d # ds"
      using assms(1) by (cases ids) auto
    have "map (embeddings_dir s) ids =
            map Some (the (embeddings_dir s d) # map (\<lambda>d. the (embeddings_dir s d)) ds)"
      using persisted_contents [OF assms(2)] ids by simp
    from resolve_miss [OF False None this] show ?thesis by blast
  qed
qed

lemma resolve_idem:
  assumes "resolve env ids s = (Inr a, s')"
  shows "resolve env ids s' = (Inr a, s')"
proof (cases "length ids = 1")
  case True
  then obtain d where ids: "ids = [d]"
    by (cases ids) auto
  with assms show ?thesis
    by (simp add: resolve_single load_vector_store_idem)
next
  case False
  have "merged_vector_stores s' ids = Some a"
    using assms False
    by (auto simp: resolve_def Let_def split: option.splits prod.splits sum.splits list.splits)
  with False show ?thesis by (simp add: resolve_hit)
qed

subsection \<open>Reachable states are well formed\<close>

lemma with_disk_memory:
  "documents (with_disk k s) = documents s"
  "merged_vector_stores (with_disk k s) = merged_vector_stores s"
  "heap (with_disk k s) = heap s"
  "multi_chat_histories (with_disk k s) = multi_chat_histories s"
  "pdf_metadata (with_disk k s) = pdf_metadata s"
  "ticks (with_disk k s) = ticks s"
  by (simp_all add: with_disk_def)

lemma with_disk_views:
  "embeddings_dir (with_disk k s) = saved_indexes k"
  "unloadable (with_disk k s) = other_paths k"
  "uploads_dir (with_disk k s) = upload_folders k"
  by (simp_all add: with_disk_def)

lemma store_file_memory:
  "store_file env file_path bytes s = (r, s') \<Longrightarrow>
   documents s' = documents s \<and> merged_vector_stores s' = merged_vector_stores s \<and>
   heap s' = heap s \<and> multi_chat_histories s' = multi_chat_histories s \<and>
   pdf_metadata s' = pdf_metadata s \<and> ticks s' = ticks s"
  by (auto simp: store_file_def with_disk_memory split: prod.splits bool.splits option.splits)

lemma upload_one_memory:
  "upload_one env f s = (r, s') \<Longrightarrow>
   documents s' = documents s \<and> merged_vector_stores s' = merged_vector_stores s \<and>
   heap s' = heap s \<and> multi_chat_histories s' = multi_chat_histories s"
proof (cases "endswith (lower (filename f)) ''.pdf''")
  case False
  assume "upload_one env f s = (r, s')"
  with False show ?thesis by (simp add: upload_one_def)
next
  case True
  assume u: "upload_one env f s = (r, s')"
  obtain r1 s1
    where st: "store_file env (uuid4 env (ticks s), filename f) (file_bytes f)
                 (s\<lparr>ticks := Suc (ticks s)\<rparr>) = (r1, s1)"
    by (cases "store_file env (uuid4 env (ticks s), filename f) (file_bytes f)
                 (s\<lparr>ticks := Suc (ticks s)\<rparr>)") auto
  from store_file_memory [OF st]
  have "documents s1 = documents s \<and> merged_vector_stores s1 = merged_vector_stores s \<and>
      heap s1 = heap s \<and> multi_chat_histories s1 = multi_chat_histories s"
    by simp
  with u True st show ?thesis
    by (auto simp: upload_one_def Let_def split: sum.splits if_splits)
qed

lemma upload_loop_memory:
  "upload_loop env files rs ts s = (r, ts', s') \<Longrightarrow>
   documents s' = documents s \<and> merged_vector_stores s' = merged_vector_stores s \<and>
   heap s' = heap s \<and> multi_chat_histories s' = multi_chat_histories s"
proof (induction files arbitrary: rs ts s)
  case Nil
  then show ?case by auto
next
  case (Cons f files)
  obtain r1 s1 where one: "upload_one env f s = (r1, s1)"
    by (cases "upload_one env f s") auto
  note mem = upload_one_memory [OF one]
  show ?case
  proof (cases r1)
    case (Inl err)
    with Cons.prems one mem show ?thesis by simp
  next
    case (Inr rt)
    obtain resp t where rt: "rt = (resp, t)" by (cases rt) auto
    from Cons.prems one Inr rt
    have "upload_loop env files (rs @ [resp]) (ts @ [t]) s1 = (r, ts', s')"
      by simp
    from Cons.IH [OF this] mem show ?thesis by simp
  qed
qed

lemma well_formed_upload: "well_formed s \<Longrightarrow> well_formed (snd (snd (upload_pdf env files s)))"
proof -
  assume wf: "well_formed s"
  obtain r ts s' where u: "upload_loop env files [] [] s = (r, ts, s')"
    by (cases "upload_loop env files [] [] s") auto
  from upload_loop_memory [OF u] wf show ?thesis
    by (simp add: upload_pdf_def u well_formed_def)
qed

lemma well_formed_with_disk: "well_formed (with_disk k s) = well_formed s"
  by (simp add: well_formed_def with_disk_memory)

lemma well_formed_process: "well_formed s \<Longrightarrow> well_formed (snd (process_pdf env t s))"
  by (auto simp: process_pdf_def create_vector_store_def alloc_def well_formed_def Let_def
      with_disk_memory less_Suc_eq split: prod.splits sum.splits option.splits bool.splits)

lemma remove_tree_memory:
  "remove_tree env root d s = (r, s') \<Longrightarrow>
   documents s' = documents s \<and> merged_vector_stores s' = merged_vector_stores s \<and>
   heap s' = heap s \<and> multi_chat_histories s' = multi_chat_histories s \<and>
   pdf_metadata s' = pdf_metadata s"
  by (auto simp: remove_tree_def with_disk_memory split: if_splits prod.splits bool.splits)

lemma delete_document_memory:
  "documents (snd (delete_document env d s)) = documents s \<and>
   merged_vector_stores (snd (delete_document env d s)) = merged_vector_stores s \<and>
   heap (snd (delete_document env d s)) = heap s \<and>
   multi_chat_histories (snd (delete_document env d s)) = multi_chat_histories s \<and>
   pdf_metadata (snd (delete_document env d s)) = (pdf_metadata s)(d := None)"
proof -
  let ?s0 = "s\<lparr>pdf_metadata := (pdf_metadata s)(d := None)\<rparr>"
  obtain r1 s1 where a: "remove_tree env Uploads d ?s0 = (r1, s1)"
    by (cases "remove_tree env Uploads d ?s0") auto
  obtain r2 s2 where b: "remove_tree env Embeddings d s1 = (r2, s2)"
    by (cases "remove_tree env Embeddings d s1") auto
  from remove_tree_memory [OF a] remove_tree_memory [OF b] a b show ?thesis
    by (cases r1; cases r2) (simp_all add: delete_document_def)
qed

lemma well_formed_delete: "well_formed s \<Longrightarrow> well_formed (snd (delete_document env d s))"
  using delete_document_memory [of env d s] by (simp add: well_formed_def)

text \<open>A document that \<open>documents\<close> holds still resolves after its deletion.\<close>

lemma delete_then_resolve:
  assumes "documents s d = Some e"
  shows "resolve env [d] (snd (delete_document env d s)) =
     (Inr (vector_store e), snd (delete_document env d s))"
proof -
  have "documents (snd (delete_document env d s)) d = Some e"
    using delete_document_memory [of env d s] assms by simp
  then show ?thesis
    by (simp add: resolve_single load_vector_store_memory)
qed

lemma well_formed_module_init: "well_formed (module_init s)"
  by (simp add: module_init_def well_formed_def)

lemma well_formed_grow: "well_formed s \<Longrightarrow> well_formed (s\<lparr>heap := heap s @ ws\<rparr>)"
  by (auto simp: well_formed_def intro: trans_less_add1)

lemma grow_nothing: "\<exists>ws. s = s\<lparr>heap := heap s @ ws\<rparr>"
  by (rule exI [of _ "[]"]) simp

lemma load_all_frame: "\<exists>ws. snd (load_all ids s) = s\<lparr>heap := heap s @ ws\<rparr>"
proof (induction ids arbitrary: s)
  case Nil
  show ?case by (simp add: grow_nothing)
next
  case (Cons d ids)
  show ?case
  proof (cases "embeddings_dir s d")
    case None
    then show ?thesis by (simp add: load_local_None grow_nothing)
  next
    case (Some v)
    obtain ws where "snd (load_all ids (s\<lparr>heap := heap s @ [v]\<rparr>)) = s\<lparr>heap := heap s @ v # ws\<rparr>"
      using Cons.IH [of "s\<lparr>heap := heap s @ [v]\<rparr>"] by auto
    then show ?thesis
      using Some by (auto simp: load_local_Some split: prod.splits sum.splits)
  qed
qed

lemma resolve_failure_state:
  assumes "length ids \<noteq> 1" and "merged_vector_stores s ids = None"
    and "resolve env ids s = (Inl err, s')"
  shows "\<exists>ws. s' = s\<lparr>heap := heap s @ ws\<rparr>"
proof -
  obtain r s1 where l: "load_all ids s = (r, s1)"
    by (cases "load_all ids s") auto
  have "s' = s1"
    using assms l by (auto simp: resolve_def Let_def split: sum.splits list.splits)
  then show ?thesis
    using load_all_frame [of ids s] l by simp
qed

lemma well_formed_load_vector_store:
  "well_formed s \<Longrightarrow> well_formed (snd (load_vector_store d s))"
proof (cases "documents s d")
  case (Some e)
  assume "well_formed s"
  with Some show ?thesis by (simp add: load_vector_store_memory)
next
  case None
  assume wf: "well_formed s"
  show ?thesis
  proof (cases "embeddings_dir s d")
    case None
    with \<open>documents s d = None\<close> load_vector_store_fails [of s d] wf show ?thesis
      by auto
  next
    case (Some v)
    with \<open>documents s d = None\<close> wf show ?thesis
      by (auto simp: load_vector_store_disk well_formed_def less_Suc_eq)
  qed
qed

lemma persisted_nonempty:
  assumes "ids \<noteq> []" and "\<forall>d\<in>set ids. embeddings_dir s d \<noteq> None"
  shows "\<exists>v vs. map (embeddings_dir s) ids = map Some (v # vs)"
proof -
  obtain d ds where ids: "ids = d # ds"
    using assms(1) by (cases ids) auto
  have "map (embeddings_dir s) ids =
          map Some (the (embeddings_dir s d) # map (\<lambda>d. the (embeddings_dir s d)) ds)"
    using persisted_contents [OF assms(2)] ids by simp
  then show ?thesis by blast
qed

lemma well_formed_resolve:
  assumes wf: "well_formed s"
  shows "well_formed (snd (resolve env ids s))"
proof (cases "length ids = 1")
  case True
  then obtain d where "ids = [d]" by (cases ids) auto
  with wf show ?thesis by (simp add: resolve_single well_formed_load_vector_store)
next
  case multi: False
  show ?thesis
  proof (cases "merged_vector_stores s ids")
    case (Some a)
    with multi wf show ?thesis by (simp add: resolve_hit)
  next
    case miss: None
    obtain r s' where res: "resolve env ids s = (r, s')"
      by (cases "resolve env ids s") auto
    show ?thesis
    proof (cases r)
      case (Inl err)
      with resolve_failure_state [OF multi miss] res
      obtain ws where "s' = s\<lparr>heap := heap s @ ws\<rparr>"
        by blast
      with res wf show ?thesis
        by (simp add: well_formed_grow)
    next
      case (Inr a)
      have ne: "ids \<noteq> []"
        using res Inr miss by (auto simp: resolve_empty)
      have "\<forall>d\<in>set ids. embeddings_dir s d \<noteq> None"
        using resolve_missing [OF multi miss, of _ env] res Inr by fastforce
      from persisted_nonempty [OF ne this] obtain v vs
        where "map (embeddings_dir s) ids = map Some (v # vs)"
        by blast
      from resolve_miss [OF multi miss this, of env] wf ne show ?thesis
        by (auto simp: well_formed_def less_Suc_eq intro: trans_less_add1)
    qed
  qed
qed

lemma well_formed_query:
  assumes "well_formed s"
  shows "well_formed (snd (query_document env request s))"
proof -
  have "well_formed (snd (resolve env (canonical_key (document_ids request)) s))"
    using assms by (rule well_formed_resolve)
  then show ?thesis
    by (auto simp: query_document_def Let_def well_formed_def split: prod.splits sum.splits)
qed

lemma reachable_well_formed: "reachable env s \<Longrightarrow> well_formed s"
proof (induction rule: reachable.induct)
  case (init k)
  show ?case by (simp add: well_formed_with_disk) (simp add: initial_state_def well_formed_def)
next
  case (restart s)
  show ?case by (rule well_formed_module_init)
next
  case (upload s files)
  then show ?case by (simp add: well_formed_upload)
next
  case (process s t)
  then show ?case by (simp add: well_formed_process)
next
  case (query s request)
  then show ?case by (simp add: well_formed_query)
next
  case (delete s doc_id)
  then show ?case by (simp add: well_formed_delete)
qed

subsection \<open>What a successful query did\<close>

lemma merge_loop_history:
  "multi_chat_histories (merge_loop env b others s) = multi_chat_histories s"
  by (induction others arbitrary: s) simp_all

lemma load_all_history: "multi_chat_histories (snd (load_all ids s)) = multi_chat_histories s"
proof -
  obtain ws where "snd (load_all ids s) = s\<lparr>heap := heap s @ ws\<rparr>"
    using load_all_frame by blast
  then show ?thesis by simp
qed

lemma load_vector_store_history:
  "multi_chat_histories (snd (load_vector_store d s)) = multi_chat_histories s"
  by (simp add: load_vector_store_def load_local_def alloc_def split: option.splits)

lemma resolve_history: "multi_chat_histories (snd (resolve env ids s)) = multi_chat_histories s"
proof (cases "length ids = 1")
  case True
  then show ?thesis by (simp add: resolve_def load_vector_store_history)
next
  case False
  obtain r s1 where l: "load_all ids s = (r, s1)"
    by (cases "load_all ids s") auto
  then have "multi_chat_histories s1 = multi_chat_histories s"
    using load_all_history [of ids s] by simp
  then show ?thesis
    using False l
    by (simp add: resolve_def Let_def merge_loop_history
        split: option.splits sum.splits list.splits)
qed

lemma qa_chain_invoke_Inr:
  assumes "qa_chain_invoke env v input history = Inr (a, ctx)"
  shows "\<exists>docs. similarity_search env v input 4 = Some docs \<and>
           llm env docs input history = Some a \<and> ctx = DocList (map Document docs)"
  using assms by (auto simp: qa_chain_invoke_def split: option.splits)

lemma query_document_Inr:
  assumes "query_document env request s = (Inr r, s1)"
  shows "\<exists>vs s' ctx.
     resolve env (canonical_key (document_ids request)) s = (Inr vs, s') \<and>
     qa_chain_invoke env (heap s' ! vs) (query request)
       (case multi_chat_histories s (canonical_key (document_ids request)) of
          None \<Rightarrow> [] | Some h \<Rightarrow> h) = Inr (answer r, ctx) \<and>
     sources r = extract_sources ctx \<and>
     s1 = s'\<lparr>multi_chat_histories := (multi_chat_histories s)
            (canonical_key (document_ids request) \<mapsto>
               (case multi_chat_histories s (canonical_key (document_ids request)) of
                  None \<Rightarrow> [] | Some h \<Rightarrow> h) @ [(query request, answer r)])\<rparr>"
proof -
  let ?key = "canonical_key (document_ids request)"
  obtain res s' where res: "resolve env ?key s = (res, s')"
    by (cases "resolve env ?key s") auto
  then have h: "multi_chat_histories s' = multi_chat_histories s"
    using resolve_history [of env ?key s] by simp
  from assms res obtain vs where vs: "res = Inr vs"
    by (cases res) (auto simp: query_document_def)
  show ?thesis
    using assms res vs h
    by (auto simp: query_document_def Let_def split: sum.splits)
qed

subsection \<open>The upload loop\<close>


lemma length_drawn_ids: "length (drawn_ids env t n) = n"
  by (simp add: drawn_ids_def)


lemma drawn_ids_take: "m \<le> n \<Longrightarrow> take m (drawn_ids env t n) = drawn_ids env t m"
  by (simp add: drawn_ids_def take_map min_def)













subsection \<open>The concrete environment at work\<close>

lemma at_place_same: "place_of p = pl \<Longrightarrow> at_place pl x view p = x"
  by (simp add: at_place_def)

lemma at_place_other: "place_of p \<noteq> pl \<Longrightarrow> at_place pl x view p = view p"
  by (simp add: at_place_def)

lemma at_place_twice: "at_place pl x (at_place pl y view) = at_place pl x view"
  by (rule ext) (simp add: at_place_def)

lemma demo_os:
  "os_makedirs demo_env = demo_makedirs" "os_write demo_env = demo_write"
  "os_save_local demo_env = demo_save_local" "os_rmtree demo_env = demo_rmtree"
  by (simp_all add: demo_env_def)

text \<open>Storing a file under plain names succeeds; a name with a directory part is refused.\<close>

lemma demo_store_file:
  assumes "place_of d = Entry n" and "place_of name = Entry m"
  shows "store_file demo_env (d, name) bytes s =
     (Inr (length bytes),
      s\<lparr>uploads_dir :=
          at_place (Entry n)
            (Some (at_place (Entry m) (Some bytes)
                     (case uploads_dir s d of None \<Rightarrow> Map.empty | Some dir \<Rightarrow> dir)))
            (uploads_dir s)\<rparr>)"
  using assms
  by (simp add: store_file_def demo_os demo_makedirs_def demo_write_def disk_of_def
      with_disk_def getsize_def at_place_same at_place_twice)

lemma demo_store_file_refused:
  assumes "place_of d = Entry n" and "place_of name = Beyond"
  shows "store_file demo_env (d, name) bytes s =
     (Inl OSError,
      s\<lparr>uploads_dir :=
          at_place (Entry n)
            (Some (case uploads_dir s d of None \<Rightarrow> Map.empty | Some dir \<Rightarrow> dir))
            (uploads_dir s)\<rparr>)"
  using assms
  by (simp add: store_file_def demo_os demo_makedirs_def demo_write_def disk_of_def
      with_disk_def)

lemma demo_upload_one:
  assumes "is_pdf f" and "place_of (uuid4 demo_env (ticks s)) = Entry n"
    and "place_of (filename f) = Entry m"
    and "pdf_metadata s (uuid4 demo_env (ticks s)) = None"
  shows "upload_one demo_env f s =
     (Inr (response_for (uuid4 demo_env (ticks s)) f, task_for (uuid4 demo_env (ticks s)) f),
      s\<lparr>ticks := Suc (ticks s),
        uploads_dir :=
          at_place (Entry n)
            (Some (at_place (Entry m) (Some (file_bytes f))
                     (case uploads_dir s (uuid4 demo_env (ticks s)) of
                        None \<Rightarrow> Map.empty | Some dir \<Rightarrow> dir)))
            (uploads_dir s),
        pdf_metadata := (pdf_metadata s)
          (uuid4 demo_env (ticks s) \<mapsto>
             \<lparr>meta_filename = filename f, upload_date = ''2024'',
               meta_size = length (file_bytes f)\<rparr>)\<rparr>)"
proof -
  have "utcnow demo_env (ticks s) = ''2024''"
    by (simp add: demo_env_def)
  then show ?thesis
    using assms
    by (simp add: upload_one_def is_pdf_def Let_def response_for_def task_for_def
        demo_store_file [OF assms(2,3)])
qed

lemma demo_upload_one_refused:
  assumes "is_pdf f" and "place_of (uuid4 demo_env (ticks s)) = Entry n"
    and "place_of (filename f) = Beyond"
  shows "fst (upload_one demo_env f s) = Inl OSError \<and>
     pdf_metadata (snd (upload_one demo_env f s)) = pdf_metadata s"
  using assms
  by (simp add: upload_one_def is_pdf_def Let_def demo_store_file_refused [OF assms(2,3)])

lemma demo_process_pdf:
  assumes "uploads_dir s d = Some dir" and "dir name = Some bytes"
    and "place_of doc = Entry n"
  shows "process_pdf demo_env ((d, name), doc) s =
     (Inr (),
      s\<lparr>heap := heap s @ [[bytes]],
        embeddings_dir := at_place (Entry n) (Some [bytes]) (embeddings_dir s),
        unloadable := at_place (Entry n) False (unloadable s),
        documents := (documents s)
          (doc \<mapsto> \<lparr>vector_store = length (heap s), chat_history = []\<rparr>)\<rparr>)"
proof -
  have "to_markdown demo_env = Some" "split_text demo_env = (\<lambda>t. [t])"
    "from_texts demo_env = Some"
    by (simp_all add: demo_env_def)
  then show ?thesis
    using assms
    by (simp add: process_pdf_def extract_text_def create_vector_store_def alloc_def Let_def
        demo_os demo_save_local_def disk_of_def with_disk_def)
qed

lemma demo_delete_document:
  assumes "place_of d = Entry n" and "uploads_dir s d \<noteq> None" and "embeddings_dir s d \<noteq> None"
  shows "snd (delete_document demo_env d s) =
     s\<lparr>pdf_metadata := (pdf_metadata s)(d := None),
       uploads_dir := at_place (Entry n) None (uploads_dir s),
       embeddings_dir := at_place (Entry n) None (embeddings_dir s),
       unloadable := at_place (Entry n) False (unloadable s)\<rparr>"
  using assms
  by (simp add: delete_document_def remove_tree_def embeddings_exists_def demo_os
      demo_rmtree_def disk_of_def with_disk_def)

subsection \<open>The concrete run, evaluated\<close>

lemma place_d: "place_of ''d'' = Entry ''d''"
  by code_simp

lemma place_d0: "place_of ''d0'' = Entry ''d0''"
  by code_simp

lemma place_zz: "place_of ''zz'' = Entry ''zz''"
  by code_simp

lemma place_a_pdf: "place_of ''a.pdf'' = Entry ''a.pdf''"
  by code_simp

lemma place_b_pdf: "place_of ''B.PDF'' = Entry ''B.PDF''"
  by code_simp

lemma place_sub: "place_of ''sub/a.pdf'' = Beyond"
  by code_simp

lemma is_pdf_a: "endswith (lower ''a.pdf'') ''.pdf''"
  by code_simp

lemma is_pdf_b: "endswith (lower ''B.PDF'') ''.pdf''"
  by code_simp

lemma is_pdf_sub: "endswith (lower ''sub/a.pdf'') ''.pdf''"
  by code_simp

lemma demo_files: "is_pdf file_a \<and> is_pdf file_b \<and> is_pdf file_sub \<and> \<not> is_pdf file_txt"
proof -
  have "\<not> endswith (lower ''notes.txt'') ''.pdf''"
    by code_simp
  then show ?thesis
    by (simp add: is_pdf_def file_a_def file_b_def file_sub_def file_txt_def
        is_pdf_a is_pdf_b is_pdf_sub)
qed

lemma demo_file_fields:
  "filename file_a = ''a.pdf''" "file_bytes file_a = ''Paris''"
  "filename file_b = ''B.PDF''" "file_bytes file_b = ''Tokyo''"
  "filename file_txt = ''notes.txt''" "file_bytes file_txt = ''memo''"
  "filename file_sub = ''sub/a.pdf''" "file_bytes file_sub = ''Paris''"
  by (simp_all add: file_a_def file_b_def file_txt_def file_sub_def)

lemma demo_uuid: "uuid4 demo_env 0 = ''d''" "uuid4 demo_env (Suc 0) = ''d0''"
  by (simp_all add: demo_env_def)

lemma demo_start_memory:
  "documents demo_start = Map.empty" "merged_vector_stores demo_start = Map.empty"
  "multi_chat_histories demo_start = Map.empty" "heap demo_start = []"
  "pdf_metadata demo_start = Map.empty" "ticks demo_start = 0"
  by (simp_all add: demo_start_def with_disk_def initial_state_def)

lemma demo_start_disk:
  "embeddings_dir demo_start = Map.empty"
  "unloadable demo_start = (\<lambda>p. place_of p = Root)"
  "uploads_dir demo_start = (\<lambda>p. if place_of p = Root then Some Map.empty else None)"
  by (simp_all add: demo_start_def with_disk_def initial_state_def demo_disk_def)

lemma reachable_demo_start: "reachable demo_env demo_start"
  unfolding demo_start_def by (rule reachable.init)

text \<open>The upload of the two files.\<close>

lemma demo_upload_first:
  "upload_one demo_env file_a demo_start =
     (Inr (response_for ''d'' file_a, task_for ''d'' file_a),
      demo_start\<lparr>ticks := Suc 0,
        uploads_dir :=
          at_place (Entry ''d'') (Some (at_place (Entry ''a.pdf'') (Some ''Paris'') Map.empty))
            (uploads_dir demo_start),
        pdf_metadata :=
          [''d'' \<mapsto> \<lparr>meta_filename = ''a.pdf'', upload_date = ''2024'',
                       meta_size = length ''Paris''\<rparr>]\<rparr>)"
proof -
  have "upload_one demo_env file_a demo_start =
     (Inr (response_for (uuid4 demo_env (ticks demo_start)) file_a,
           task_for (uuid4 demo_env (ticks demo_start)) file_a),
      demo_start\<lparr>ticks := Suc (ticks demo_start),
        uploads_dir :=
          at_place (Entry ''d'')
            (Some (at_place (Entry ''a.pdf'') (Some (file_bytes file_a))
                     (case uploads_dir demo_start (uuid4 demo_env (ticks demo_start)) of
                        None \<Rightarrow> Map.empty | Some dir \<Rightarrow> dir)))
            (uploads_dir demo_start),
        pdf_metadata := (pdf_metadata demo_start)
          (uuid4 demo_env (ticks demo_start) \<mapsto>
             \<lparr>meta_filename = filename file_a, upload_date = ''2024'',
               meta_size = length (file_bytes file_a)\<rparr>)\<rparr>)"
    by (rule demo_upload_one)
      (simp_all add: demo_files demo_start_memory demo_uuid place_d place_a_pdf
        demo_file_fields)
  then show ?thesis
    by (simp add: demo_start_memory demo_start_disk demo_uuid place_d demo_file_fields)
qed

lemma demo_upload_second:
  assumes "ticks s = Suc 0" and "pdf_metadata s ''d0'' = None" and "uploads_dir s ''d0'' = None"
  shows "upload_one demo_env file_b s =
     (Inr (response_for ''d0'' file_b, task_for ''d0'' file_b),
      s\<lparr>ticks := Suc (Suc 0),
        uploads_dir :=
          at_place (Entry ''d0'') (Some (at_place (Entry ''B.PDF'') (Some ''Tokyo'') Map.empty))
            (uploads_dir s),
        pdf_metadata := (pdf_metadata s)
          (''d0'' \<mapsto> \<lparr>meta_filename = ''B.PDF'', upload_date = ''2024'',
                       meta_size = length ''Tokyo''\<rparr>)\<rparr>)"
proof -
  have "upload_one demo_env file_b s =
     (Inr (response_for (uuid4 demo_env (ticks s)) file_b,
           task_for (uuid4 demo_env (ticks s)) file_b),
      s\<lparr>ticks := Suc (ticks s),
        uploads_dir :=
          at_place (Entry ''d0'')
            (Some (at_place (Entry ''B.PDF'') (Some (file_bytes file_b))
                     (case uploads_dir s (uuid4 demo_env (ticks s)) of
                        None \<Rightarrow> Map.empty | Some dir \<Rightarrow> dir)))
            (uploads_dir s),
        pdf_metadata := (pdf_metadata s)
          (uuid4 demo_env (ticks s) \<mapsto>
             \<lparr>meta_filename = filename file_b, upload_date = ''2024'',
               meta_size = length (file_bytes file_b)\<rparr>)\<rparr>)"
    by (rule demo_upload_one)
      (simp_all add: demo_files assms demo_uuid place_d0 place_b_pdf demo_file_fields)
  then show ?thesis
    by (simp add: assms demo_uuid demo_file_fields)
qed

lemma demo_upload_eq:
  "upload_pdf demo_env [file_a, file_b] demo_start =
     (Inr [response_for ''d'' file_a, response_for ''d0'' file_b],
      [task_for ''d'' file_a, task_for ''d0'' file_b],
      demo_start\<lparr>ticks := Suc (Suc 0),
        uploads_dir :=
          at_place (Entry ''d0'') (Some (at_place (Entry ''B.PDF'') (Some ''Tokyo'') Map.empty))
            (at_place (Entry ''d'') (Some (at_place (Entry ''a.pdf'') (Some ''Paris'') Map.empty))
               (uploads_dir demo_start)),
        pdf_metadata :=
          [''d'' \<mapsto> \<lparr>meta_filename = ''a.pdf'', upload_date = ''2024'',
                       meta_size = length ''Paris''\<rparr>,
           ''d0'' \<mapsto> \<lparr>meta_filename = ''B.PDF'', upload_date = ''2024'',
                        meta_size = length ''Tokyo''\<rparr>]\<rparr>)"
  by (simp add: upload_pdf_def demo_upload_first)
    (subst demo_upload_second;
      simp add: demo_start_disk at_place_def place_d0 place_d)

lemma demo_uploaded_eq:
  "demo_uploaded =
     demo_start\<lparr>ticks := Suc (Suc 0),
        uploads_dir :=
          at_place (Entry ''d0'') (Some (at_place (Entry ''B.PDF'') (Some ''Tokyo'') Map.empty))
            (at_place (Entry ''d'') (Some (at_place (Entry ''a.pdf'') (Some ''Paris'') Map.empty))
               (uploads_dir demo_start)),
        pdf_metadata :=
          [''d'' \<mapsto> \<lparr>meta_filename = ''a.pdf'', upload_date = ''2024'',
                       meta_size = length ''Paris''\<rparr>,
           ''d0'' \<mapsto> \<lparr>meta_filename = ''B.PDF'', upload_date = ''2024'',
                        meta_size = length ''Tokyo''\<rparr>]\<rparr>"
  by (simp add: demo_uploaded_def demo_upload_eq)

lemma demo_uploaded_files:
  "\<exists>dir. uploads_dir demo_uploaded ''d'' = Some dir \<and> dir ''a.pdf'' = Some ''Paris''"
  "\<exists>dir. uploads_dir demo_uploaded ''d0'' = Some dir \<and> dir ''B.PDF'' = Some ''Tokyo''"
  by (simp_all add: demo_uploaded_eq at_place_def place_d place_d0 place_a_pdf place_b_pdf)

lemma demo_ready_eq:
  "demo_ready =
     demo_uploaded\<lparr>heap := [[''Paris''], [''Tokyo'']],
       embeddings_dir :=
         at_place (Entry ''d0'') (Some [''Tokyo''])
           (at_place (Entry ''d'') (Some [''Paris'']) Map.empty),
       unloadable :=
         at_place (Entry ''d0'') False
           (at_place (Entry ''d'') False (\<lambda>p. place_of p = Root)),
       documents :=
         [''d'' \<mapsto> \<lparr>vector_store = 0, chat_history = []\<rparr>,
          ''d0'' \<mapsto> \<lparr>vector_store = Suc 0, chat_history = []\<rparr>]\<rparr>"
proof -
  obtain dir where d: "uploads_dir demo_uploaded ''d'' = Some dir" "dir ''a.pdf'' = Some ''Paris''"
    using demo_uploaded_files(1) by blast
  obtain dir0 where d0: "uploads_dir demo_uploaded ''d0'' = Some dir0"
    "dir0 ''B.PDF'' = Some ''Tokyo''"
    using demo_uploaded_files(2) by blast
  have mem: "heap demo_uploaded = []" "documents demo_uploaded = Map.empty"
    "embeddings_dir demo_uploaded = Map.empty"
    "unloadable demo_uploaded = (\<lambda>p. place_of p = Root)"
    by (simp_all add: demo_uploaded_eq demo_start_memory demo_start_disk)
  define s1 where "s1 = snd (process_pdf demo_env ((''d'', ''a.pdf''), ''d'') demo_uploaded)"
  have s1: "s1 =
     demo_uploaded\<lparr>heap := [[''Paris'']],
       embeddings_dir := at_place (Entry ''d'') (Some [''Paris'']) Map.empty,
       unloadable := at_place (Entry ''d'') False (\<lambda>p. place_of p = Root),
       documents := [''d'' \<mapsto> \<lparr>vector_store = 0, chat_history = []\<rparr>]\<rparr>"
    unfolding s1_def by (simp add: demo_process_pdf [OF d place_d] mem)
  have d0': "uploads_dir s1 ''d0'' = Some dir0"
    by (simp add: s1 d0)
  have "snd (process_pdf demo_env ((''d0'', ''B.PDF''), ''d0'') s1) =
     demo_uploaded\<lparr>heap := [[''Paris''], [''Tokyo'']],
       embeddings_dir :=
         at_place (Entry ''d0'') (Some [''Tokyo''])
           (at_place (Entry ''d'') (Some [''Paris'']) Map.empty),
       unloadable :=
         at_place (Entry ''d0'') False
           (at_place (Entry ''d'') False (\<lambda>p. place_of p = Root)),
       documents :=
         [''d'' \<mapsto> \<lparr>vector_store = 0, chat_history = []\<rparr>,
          ''d0'' \<mapsto> \<lparr>vector_store = Suc 0, chat_history = []\<rparr>]\<rparr>"
    by (simp add: demo_process_pdf [OF d0' d0(2) place_d0]) (simp add: s1)
  then show ?thesis
    by (simp add: demo_ready_def s1_def)
qed

lemma demo_ready_memory:
  "documents demo_ready = [''d'' \<mapsto> \<lparr>vector_store = 0, chat_history = []\<rparr>,
                           ''d0'' \<mapsto> \<lparr>vector_store = Suc 0, chat_history = []\<rparr>]"
  "merged_vector_stores demo_ready = Map.empty"
  "multi_chat_histories demo_ready = Map.empty"
  "heap demo_ready = [[''Paris''], [''Tokyo'']]"
  by (simp_all add: demo_ready_eq demo_uploaded_eq demo_start_memory)

lemma demo_ready_indexes:
  "embeddings_dir demo_ready ''d'' = Some [''Paris'']"
  "embeddings_dir demo_ready ''d0'' = Some [''Tokyo'']"
  "embeddings_dir demo_ready ''zz'' = None"
  "unloadable demo_ready ''zz'' = False"
  by (simp_all add: demo_ready_eq at_place_def place_d place_d0 place_zz)

lemma demo_restarted_eq:
  "demo_restarted =
     demo_ready\<lparr>documents := Map.empty, multi_chat_histories := Map.empty,
       merged_vector_stores := Map.empty, heap := []\<rparr>"
  by (simp add: demo_restarted_def module_init_def)

lemma reachable_demo_ready: "reachable demo_env demo_ready"
  unfolding demo_ready_def demo_uploaded_def
  by (intro reachable.process reachable.upload reachable_demo_start)


lemma key_d_d0: "canonical_key [''d0'', ''d''] = [''d'', ''d0'']"
  by code_simp

lemma reachable_demo_deleted: "reachable demo_env demo_deleted"
  unfolding demo_deleted_def demo_queried_def
  by (intro reachable.delete reachable.query reachable_demo_ready)

lemma demo_resolve_both:
  "resolve demo_env [''d'', ''d0''] demo_ready =
     (Inr (Suc (Suc 0)),
      demo_ready\<lparr>heap := [[''Paris''], [''Tokyo''], [''Paris'', ''Tokyo''], [''Tokyo'']],
        merged_vector_stores := [[''d'', ''d0''] \<mapsto> Suc (Suc 0)]\<rparr>)"
proof -
  have "resolve demo_env [''d'', ''d0''] demo_ready =
     (Inr (length (heap demo_ready)),
      demo_ready\<lparr>heap := heap demo_ready @
          foldl (merge_from demo_env) [''Paris''] [[''Tokyo'']] # [[''Tokyo'']],
        merged_vector_stores :=
          (merged_vector_stores demo_ready)([''d'', ''d0''] \<mapsto> length (heap demo_ready))\<rparr>)"
    by (rule resolve_miss) (simp_all add: demo_ready_memory demo_ready_indexes)
  moreover have "merge_from demo_env = (@)"
    by (simp add: demo_env_def)
  ultimately show ?thesis
    by (simp add: demo_ready_memory)
qed

lemma demo_invoke:
  "qa_chain_invoke demo_env v q h = Inr (''re: '' @ q, DocList (map Document (take 4 v)))"
  by (simp add: qa_chain_invoke_def similarity_search_def demo_env_def)

lemma demo_query_eq:
  "query_document demo_env \<lparr>document_ids = [''d0'', ''d''], query = ''capital?''\<rparr> demo_ready =
     (Inr \<lparr>answer = ''re: capital?'', sources = [''Paris...'', ''Tokyo...'']\<rparr>, demo_queried)"
proof -
  have "fst (query_document demo_env \<lparr>document_ids = [''d0'', ''d''], query = ''capital?''\<rparr>
          demo_ready) = Inr \<lparr>answer = ''re: capital?'', sources = [''Paris...'', ''Tokyo...'']\<rparr>"
    by (simp add: query_document_def key_d_d0 demo_resolve_both demo_invoke Let_def)
  then show ?thesis
    by (simp add: demo_queried_def prod_eq_iff)
qed

lemma demo_queried_eq:
  "demo_queried =
     demo_ready\<lparr>heap := [[''Paris''], [''Tokyo''], [''Paris'', ''Tokyo''], [''Tokyo'']],
       merged_vector_stores := [[''d'', ''d0''] \<mapsto> Suc (Suc 0)],
       multi_chat_histories := [[''d'', ''d0''] \<mapsto> [(''capital?'', ''re: capital?'')]]\<rparr>"
  by (simp add: demo_queried_def query_document_def key_d_d0 demo_resolve_both demo_invoke
      Let_def demo_ready_memory)

lemma demo_deleted_eq:
  "demo_deleted =
     demo_queried\<lparr>pdf_metadata := (pdf_metadata demo_queried)(''d0'' := None),
       uploads_dir := at_place (Entry ''d0'') None (uploads_dir demo_queried),
       embeddings_dir := at_place (Entry ''d0'') None (embeddings_dir demo_queried),
       unloadable := at_place (Entry ''d0'') False (unloadable demo_queried)\<rparr>"
  unfolding demo_deleted_def
  by (rule demo_delete_document [OF place_d0])
    (simp_all add: demo_queried_eq demo_ready_eq demo_uploaded_eq at_place_def place_d0)

lemma demo_deleted_memory:
  "documents demo_deleted = documents demo_ready"
  "merged_vector_stores demo_deleted = [[''d'', ''d0''] \<mapsto> Suc (Suc 0)]"
  "multi_chat_histories demo_deleted = [[''d'', ''d0''] \<mapsto> [(''capital?'', ''re: capital?'')]]"
  "heap demo_deleted = [[''Paris''], [''Tokyo''], [''Paris'', ''Tokyo''], [''Tokyo'']]"
  by (simp_all add: demo_deleted_eq demo_queried_eq)

lemma demo_deleted_disk:
  "pdf_metadata demo_deleted ''d0'' = None"
  "embeddings_dir demo_deleted ''d0'' = None"
  "uploads_dir demo_deleted ''d0'' = None"
  "unloadable demo_deleted ''d0'' = False"
  by (simp_all add: demo_deleted_eq at_place_def place_d0)

lemma place_empty: "place_of [] = Root"
  by code_simp

lemma place_d_slash: "place_of ''d/'' = Entry ''d''"
  by code_simp

lemma demo_restarted_memory:
  "documents demo_restarted = Map.empty" "merged_vector_stores demo_restarted = Map.empty"
  "multi_chat_histories demo_restarted = Map.empty" "heap demo_restarted = []"
  by (simp_all add: demo_restarted_eq)

lemma demo_restarted_indexes:
  "embeddings_dir demo_restarted ''d'' = Some [''Paris'']"
  "embeddings_dir demo_restarted ''d0'' = Some [''Tokyo'']"
  "embeddings_dir demo_restarted ''d/'' = Some [''Paris'']"
  "embeddings_dir demo_restarted ''zz'' = None"
  "embeddings_dir demo_restarted [] = None"
  "unloadable demo_restarted ''zz'' = False"
  "unloadable demo_restarted [] = True"
  by (simp_all add: demo_restarted_eq demo_ready_eq at_place_def place_d place_d0 place_zz
      place_empty place_d_slash)

text \<open>A set with a member that was never ingested, on a cache miss.\<close>

lemma demo_resolve_unknown: "fst (resolve demo_env [''d'', ''zz''] demo_restarted) = Inl LoadError"
  by (rule resolve_missing [of _ _ "''zz''"])
    (simp_all add: demo_restarted_memory demo_restarted_indexes)

lemma upload_loop_raise:
  "fst (upload_one env f s) = Inl err \<Longrightarrow>
   upload_loop env (f # fs) rs ts s = (Inl err, ts, snd (upload_one env f s))"
  by (cases "upload_one env f s") simp

lemma demo_upload_refused:
  "upload_pdf demo_env (file_sub # fs) demo_start =
     (Inl OSError, [], snd (upload_one demo_env file_sub demo_start))"
  "pdf_metadata (snd (upload_one demo_env file_sub demo_start)) = Map.empty"
proof -
  have r: "fst (upload_one demo_env file_sub demo_start) = Inl OSError \<and>
     pdf_metadata (snd (upload_one demo_env file_sub demo_start)) = pdf_metadata demo_start"
    by (rule demo_upload_one_refused [of _ _ "''d''"])
      (simp_all add: demo_files demo_start_memory demo_uuid place_d place_sub demo_file_fields)
  then show "upload_pdf demo_env (file_sub # fs) demo_start =
     (Inl OSError, [], snd (upload_one demo_env file_sub demo_start))"
    by (simp add: upload_pdf_def upload_loop_raise del: upload_loop.simps)
  from r show "pdf_metadata (snd (upload_one demo_env file_sub demo_start)) = Map.empty"
    by (simp add: demo_start_memory)
qed



section \<open>The claims\<close>

subsection \<open>Session keys\<close>

text \<open>
  C1. Two non-empty lists of ingested document ids that are equal as sets have the same
  canonical key, which is the sorted list of the distinct ids. Resolving either one
  succeeds and gives the same index object, resolving the other one afterwards gives that
  same object again and changes nothing, and the query handler cannot tell the two
  requests apart.
\<close>

theorem session_key_canonical:
  assumes "set xs = set ys" and "xs \<noteq> []" and "\<forall>d\<in>set xs. embeddings_dir s d \<noteq> None"
  shows "canonical_key xs = canonical_key ys \<and>
     sorted (canonical_key xs) \<and> distinct (canonical_key xs) \<and>
     set (canonical_key xs) = set xs \<and>
     (\<exists>vs s'. resolve env (canonical_key xs) s = (Inr vs, s') \<and>
               resolve env (canonical_key ys) s = (Inr vs, s') \<and>
               resolve env (canonical_key ys) s' = (Inr vs, s') \<and>
               heap s' ! vs = heap (snd (resolve env (canonical_key ys) s')) ! vs) \<and>
     query_document env \<lparr>document_ids = xs, query = q\<rparr> s =
     query_document env \<lparr>document_ids = ys, query = q\<rparr> s"
proof -
  have same: "canonical_key xs = canonical_key ys"
    using assms(1) by (simp add: canonical_key_def)
  have "canonical_key xs \<noteq> []"
    using assms(2) by (simp add: canonical_key_Nil)
  moreover have "\<forall>d\<in>set (canonical_key xs). embeddings_dir s d \<noteq> None"
    using assms(3) by (simp add: set_canonical_key)
  ultimately obtain vs s' where r: "resolve env (canonical_key xs) s = (Inr vs, s')"
    using resolve_succeeds by blast
  then have again: "resolve env (canonical_key xs) s' = (Inr vs, s')"
    by (rule resolve_idem)
  have "resolve env (canonical_key xs) s = (Inr vs, s') \<and>
        resolve env (canonical_key ys) s = (Inr vs, s') \<and>
        resolve env (canonical_key ys) s' = (Inr vs, s') \<and>
        heap s' ! vs = heap (snd (resolve env (canonical_key ys) s')) ! vs"
    using r again same by simp
  then have objects: "\<exists>vs s'. resolve env (canonical_key xs) s = (Inr vs, s') \<and>
        resolve env (canonical_key ys) s = (Inr vs, s') \<and>
        resolve env (canonical_key ys) s' = (Inr vs, s') \<and>
        heap s' ! vs = heap (snd (resolve env (canonical_key ys) s')) ! vs"
    by blast
  have queries: "query_document env \<lparr>document_ids = xs, query = q\<rparr> s =
      query_document env \<lparr>document_ids = ys, query = q\<rparr> s"
    by (simp add: query_document_def same Let_def cong: prod.case_cong sum.case_cong)
  show ?thesis
    using same sorted_canonical_key [of xs] set_canonical_key [of xs] objects queries
    by (intro conjI) simp_all
qed

theorem session_key_canonical_witness:
  "canonical_key [''d0'', ''d''] = canonical_key [''d'', ''d0'', ''d''] \<and>
   (\<exists>vs s'. resolve demo_env (canonical_key [''d0'', ''d'']) demo_restarted = (Inr vs, s') \<and>
             resolve demo_env (canonical_key [''d'', ''d0'', ''d'']) s' = (Inr vs, s'))"
proof -
  have h1: "set [''d0'', ''d''] = set [''d'', ''d0'', ''d'']"
    by auto
  have h2: "[''d0'', ''d''] \<noteq> []"
    by simp
  have h3: "\<forall>d\<in>set [''d0'', ''d'']. embeddings_dir demo_restarted d \<noteq> None"
    by (simp add: demo_restarted_indexes)
  from session_key_canonical [OF h1 h2 h3, of demo_env "''capital?''"]
  show ?thesis by blast
qed

subsection \<open>A single document\<close>

text \<open>
  C2. When the request names exactly one document \<open>d\<close> (any number of times), the key is
  \<open>[d]\<close> and resolving is \<open>load_vector_store d\<close>: the object in \<open>documents\<close> if there is
  one; else, when \<open>embeddings/<d>\<close> holds an index, a new object with the persisted
  content, registered in \<open>documents\<close>; else the loader's exception when the path exists
  all the same, and a 404 when it does not. No object that existed before is changed, the
  merged-session cache is as it was, and the object returned is the one \<open>documents\<close>
  holds for \<open>d\<close> afterwards.
\<close>

theorem single_document_bypass:
  assumes "set xs = {d}"
  shows "canonical_key xs = [d] \<and>
     resolve env (canonical_key xs) s = load_vector_store d s \<and>
     (case documents s d of
        Some e \<Rightarrow> load_vector_store d s = (Inr (vector_store e), s)
      | None \<Rightarrow>
          (case embeddings_dir s d of
             Some v \<Rightarrow>
               load_vector_store d s =
                 (Inr (length (heap s)),
                  s\<lparr>heap := heap s @ [v],
                    documents := (documents s)
                      (d \<mapsto> \<lparr>vector_store = length (heap s), chat_history = []\<rparr>)\<rparr>)
           | None \<Rightarrow>
               load_vector_store d s =
                 (if unloadable s d then (Inl LoadError, s)
                  else (Inl (HTTPException 404), s)))) \<and>
     merged_vector_stores (snd (resolve env (canonical_key xs) s)) = merged_vector_stores s \<and>
     take (length (heap s)) (heap (snd (resolve env (canonical_key xs) s))) = heap s \<and>
     (\<forall>a s'. resolve env (canonical_key xs) s = (Inr a, s') \<longrightarrow>
        (\<exists>e. documents s' d = Some e \<and> vector_store e = a))"
proof -
  have key: "canonical_key xs = [d]"
    using assms by (rule canonical_key_single)
  show ?thesis
  proof (cases "documents s d")
    case (Some e)
    then show ?thesis
      by (simp add: key resolve_single load_vector_store_memory)
  next
    case None
    show ?thesis
    proof (cases "embeddings_dir s d")
      case (Some v)
      with None show ?thesis
        by (simp add: key resolve_single load_vector_store_disk)
    next
      case no_index: None
      with None show ?thesis
        by (cases "unloadable s d")
          (simp_all add: key resolve_single load_vector_store_absent
            load_vector_store_unloadable)
    qed
  qed
qed

theorem single_document_bypass_witness:
  "canonical_key [''d'', ''d''] = [''d''] \<and>
   resolve demo_env (canonical_key [''d'', ''d'']) demo_restarted =
     (Inr 0,
      demo_restarted\<lparr>heap := [[''Paris'']],
        documents := [''d'' \<mapsto> \<lparr>vector_store = 0, chat_history = []\<rparr>]\<rparr>) \<and>
   resolve demo_env (canonical_key [''d'']) demo_ready = (Inr 0, demo_ready) \<and>
   resolve demo_env (canonical_key [''zz'']) demo_restarted =
     (Inl (HTTPException 404), demo_restarted) \<and>
   resolve demo_env (canonical_key [[]]) demo_restarted = (Inl LoadError, demo_restarted) \<and>
   resolve demo_env (canonical_key [''d/'']) demo_restarted =
     (Inr 0,
      demo_restarted\<lparr>heap := [[''Paris'']],
        documents := [''d/'' \<mapsto> \<lparr>vector_store = 0, chat_history = []\<rparr>]\<rparr>)"
proof -
  have twice: "set [''d'', ''d''] = {''d''}"
    by simp
  have "set [d] = {d}" for d :: string
    by simp
  note once = single_document_bypass [OF this]
  note t1 = single_document_bypass [OF twice, of demo_env demo_restarted]
  note t2 = once [of "''d''" demo_env demo_ready]
  note t3 = once [of "''zz''" demo_env demo_restarted]
  note t4 = once [of "[]" demo_env demo_restarted]
  note t5 = once [of "''d/''" demo_env demo_restarted]
  have "load_vector_store ''d'' demo_restarted =
     (Inr 0,
      demo_restarted\<lparr>heap := [[''Paris'']],
        documents := [''d'' \<mapsto> \<lparr>vector_store = 0, chat_history = []\<rparr>]\<rparr>)"
    using t1 [THEN conjunct2, THEN conjunct2, THEN conjunct1]
    by (simp add: demo_restarted_memory demo_restarted_indexes)
  with t1 have c1: "canonical_key [''d'', ''d''] = [''d''] \<and>
     resolve demo_env (canonical_key [''d'', ''d'']) demo_restarted =
     (Inr 0,
      demo_restarted\<lparr>heap := [[''Paris'']],
        documents := [''d'' \<mapsto> \<lparr>vector_store = 0, chat_history = []\<rparr>]\<rparr>)"
    by metis
  have "load_vector_store ''d'' demo_ready = (Inr 0, demo_ready)"
    using t2 [THEN conjunct2, THEN conjunct2, THEN conjunct1]
    by (simp add: demo_ready_memory)
  with t2 have c2: "resolve demo_env (canonical_key [''d'']) demo_ready = (Inr 0, demo_ready)"
    by metis
  have "load_vector_store ''zz'' demo_restarted = (Inl (HTTPException 404), demo_restarted)"
    using t3 [THEN conjunct2, THEN conjunct2, THEN conjunct1]
    by (simp add: demo_restarted_memory demo_restarted_indexes)
  with t3 have c3: "resolve demo_env (canonical_key [''zz'']) demo_restarted =
     (Inl (HTTPException 404), demo_restarted)"
    by metis
  have "load_vector_store [] demo_restarted = (Inl LoadError, demo_restarted)"
    using t4 [THEN conjunct2, THEN conjunct2, THEN conjunct1]
    by (simp add: demo_restarted_memory demo_restarted_indexes)
  with t4 have c4: "resolve demo_env (canonical_key [[]]) demo_restarted =
     (Inl LoadError, demo_restarted)"
    by metis
  have "load_vector_store ''d/'' demo_restarted =
     (Inr 0,
      demo_restarted\<lparr>heap := [[''Paris'']],
        documents := [''d/'' \<mapsto> \<lparr>vector_store = 0, chat_history = []\<rparr>]\<rparr>)"
    using t5 [THEN conjunct2, THEN conjunct2, THEN conjunct1]
    by (simp add: demo_restarted_memory demo_restarted_indexes)
  with t5 have c5: "resolve demo_env (canonical_key [''d/'']) demo_restarted =
     (Inr 0,
      demo_restarted\<lparr>heap := [[''Paris'']],
        documents := [''d/'' \<mapsto> \<lparr>vector_store = 0, chat_history = []\<rparr>]\<rparr>)"
    by metis
  from c1 c2 c3 c4 c5 show ?thesis
    by blast
qed

subsection \<open>Merging on a cache miss\<close>

text \<open>
  C3. In a reachable state, let the canonical key of a request have more than one member,
  all persisted, and no entry in \<open>merged_vector_stores\<close>. Then resolving succeeds. The
  objects that existed before are exactly as they were; after them the store holds one new
  object per member, loaded from \<open>embeddings_dir\<close> in the order of the key, which is
  ascending. The first of them has absorbed the others from left to right, is returned,
  and is stored under the key. \<open>documents\<close> is unchanged, no entry of it points to the
  merged object, and the content of every document's own index is what it was.
\<close>

theorem merge_frame:
  assumes "reachable env s"
    and "ids = canonical_key xs"
    and "length ids \<noteq> 1"
    and "merged_vector_stores s ids = None"
    and "map (embeddings_dir s) ids = map Some (v # vs)"
  shows "sorted ids \<and>
     (\<exists>a s'. resolve env ids s = (Inr a, s') \<and>
        a = length (heap s) \<and>
        heap s' = heap s @ foldl (merge_from env) v vs # vs \<and>
        merged_vector_stores s' = (merged_vector_stores s)(ids \<mapsto> a) \<and>
        documents s' = documents s \<and>
        embeddings_dir s' = embeddings_dir s \<and>
        (\<forall>d e. documents s' d = Some e \<longrightarrow>
           vector_store e \<noteq> a \<and> heap s' ! vector_store e = heap s ! vector_store e))"
proof -
  have valid: "\<forall>d e. documents s d = Some e \<longrightarrow> vector_store e < length (heap s)"
    using reachable_well_formed [OF assms(1)] by (simp add: well_formed_def)
  have "sorted ids"
    using assms(2) sorted_canonical_key by simp
  moreover have "resolve env ids s =
     (Inr (length (heap s)),
      s\<lparr>heap := heap s @ foldl (merge_from env) v vs # vs,
        merged_vector_stores := (merged_vector_stores s)(ids \<mapsto> length (heap s))\<rparr>)"
    using assms(3-5) by (rule resolve_miss)
  moreover have "\<forall>d e. documents s d = Some e \<longrightarrow>
      vector_store e \<noteq> length (heap s) \<and>
      (heap s @ foldl (merge_from env) v vs # vs) ! vector_store e = heap s ! vector_store e"
  proof (intro allI impI)
    fix d e
    assume "documents s d = Some e"
    with valid have "vector_store e < length (heap s)"
      by blast
    then show "vector_store e \<noteq> length (heap s) \<and>
      (heap s @ foldl (merge_from env) v vs # vs) ! vector_store e = heap s ! vector_store e"
      by (simp add: nth_append)
  qed
  ultimately show ?thesis
    by simp
qed

theorem merge_frame_witness:
  "\<exists>s'. resolve demo_env [''d'', ''d0''] demo_ready = (Inr 2, s') \<and>
     heap s' = [[''Paris''], [''Tokyo''], [''Paris'', ''Tokyo''], [''Tokyo'']] \<and>
     documents s' = documents demo_ready"
proof -
  have h1: "reachable demo_env demo_ready"
    by (rule reachable_demo_ready)
  have h2: "[''d'', ''d0''] = canonical_key [''d0'', ''d'']"
    by (simp add: key_d_d0)
  have h3: "length [''d'', ''d0''] \<noteq> 1"
    by simp
  have h4: "merged_vector_stores demo_ready [''d'', ''d0''] = None"
    by (simp add: demo_ready_memory)
  have h5: "map (embeddings_dir demo_ready) [''d'', ''d0''] = map Some [[''Paris''], [''Tokyo'']]"
    by (simp add: demo_ready_indexes)
  have hp: "heap demo_ready = [[''Paris''], [''Tokyo'']]"
    by (simp add: demo_ready_memory)
  have m: "merge_from demo_env = (@)"
    by (simp add: demo_env_def)
  from merge_frame [OF h1 h2 h3 h4 h5]
  obtain a s' where "resolve demo_env [''d'', ''d0''] demo_ready = (Inr a, s')"
    and "a = length (heap demo_ready)"
    and "heap s' = heap demo_ready @
           foldl (merge_from demo_env) [''Paris''] [[''Tokyo'']] # [[''Tokyo'']]"
    and "documents s' = documents demo_ready"
    by blast
  then show ?thesis
    by (intro exI [of _ s']) (simp add: hp m)
qed

subsection \<open>Members without persisted storage\<close>




subsection \<open>Deleting a document\<close>

text \<open>
  C5. The handler removes the row of the table and the two directories, and leaves
  \<open>documents\<close> as it is. In the run, \<open>d0\<close> is in \<open>documents\<close> when it is deleted:
  afterwards it has no row and no directory, and a query that names only \<open>d0\<close> is
  answered from the index still held in memory.
\<close>

theorem query_after_delete:
  "reachable demo_env demo_deleted \<and>
   pdf_metadata demo_deleted ''d0'' = None \<and>
   embeddings_dir demo_deleted ''d0'' = None \<and>
   uploads_dir demo_deleted ''d0'' = None \<and>
   documents demo_deleted ''d0'' = documents demo_queried ''d0'' \<and>
   resolve demo_env (canonical_key [''d0'']) demo_deleted = (Inr 1, demo_deleted) \<and>
   fst (query_document demo_env \<lparr>document_ids = [''d0''], query = ''capital?''\<rparr> demo_deleted) =
     Inr \<lparr>answer = ''re: capital?'', sources = [''Tokyo...'']\<rparr>"
proof -
  have key: "canonical_key [''d0''] = [''d0'']"
    by (simp add: canonical_key_single)
  have "documents demo_deleted ''d0'' = Some \<lparr>vector_store = 1, chat_history = []\<rparr>"
    by (simp add: demo_deleted_memory demo_ready_memory)
  then have r: "resolve demo_env [''d0''] demo_deleted = (Inr 1, demo_deleted)"
    by (simp add: resolve_single load_vector_store_memory)
  have hp: "heap demo_deleted ! Suc 0 = [''Tokyo'']"
    and hist: "multi_chat_histories demo_deleted [''d0''] = None"
    by (simp_all add: demo_deleted_memory)
  have "fst (query_document demo_env \<lparr>document_ids = [''d0''], query = ''capital?''\<rparr>
               demo_deleted) =
     Inr \<lparr>answer = ''re: capital?'', sources = [''Tokyo...'']\<rparr>"
    by (simp add: query_document_def key r Let_def hp hist demo_invoke)
  moreover have "documents demo_deleted ''d0'' = documents demo_queried ''d0''"
    by (simp add: demo_deleted_eq)
  ultimately show ?thesis
    using r key by (simp add: reachable_demo_deleted demo_deleted_disk)
qed

subsection \<open>Conversation history\<close>

text \<open>
  C6. A successful query stores, under its session key, the history it found there
  followed by its own (question, answer), and leaves the history of every other key as it
  was. So when the key had no history and a second query on the same set of documents
  succeeds next, the chain of the second query was invoked with exactly the first turn as
  its history, and the history is then the two turns in the order of arrival.
\<close>

theorem conversation_history:
  assumes "query_document env \<lparr>document_ids = xs, query = q1\<rparr> s = (Inr r1, s1)"
  shows "multi_chat_histories s1 (canonical_key xs) =
       Some ((case multi_chat_histories s (canonical_key xs) of None \<Rightarrow> [] | Some h \<Rightarrow> h)
             @ [(q1, answer r1)]) \<and>
     (\<forall>k. k \<noteq> canonical_key xs \<longrightarrow> multi_chat_histories s1 k = multi_chat_histories s k) \<and>
     (\<forall>ys q2 r2 s2.
        set ys = set xs \<and> multi_chat_histories s (canonical_key xs) = None \<and>
        query_document env \<lparr>document_ids = ys, query = q2\<rparr> s1 = (Inr r2, s2) \<longrightarrow>
        (\<exists>v ctx. qa_chain_invoke env v q2 [(q1, answer r1)] = Inr (answer r2, ctx)) \<and>
        multi_chat_histories s2 (canonical_key xs) = Some [(q1, answer r1), (q2, answer r2)])"
proof -
  let ?key = "canonical_key xs"
  let ?old = "case multi_chat_histories s ?key of None \<Rightarrow> [] | Some h \<Rightarrow> h"
  obtain vs s' ctx
    where s1: "s1 = s'\<lparr>multi_chat_histories :=
                 (multi_chat_histories s)(?key \<mapsto> ?old @ [(q1, answer r1)])\<rparr>"
    using query_document_Inr [OF assms] by auto
  have first: "multi_chat_histories s1 ?key = Some (?old @ [(q1, answer r1)])"
    by (simp add: s1)
  have others: "\<forall>k. k \<noteq> ?key \<longrightarrow> multi_chat_histories s1 k = multi_chat_histories s k"
    by (simp add: s1)
  have second: "(\<exists>v ctx. qa_chain_invoke env v q2 [(q1, answer r1)] = Inr (answer r2, ctx)) \<and>
        multi_chat_histories s2 ?key = Some [(q1, answer r1), (q2, answer r2)]"
    if same: "set ys = set xs" and fresh: "multi_chat_histories s ?key = None"
      and next_query: "query_document env \<lparr>document_ids = ys, query = q2\<rparr> s1 = (Inr r2, s2)"
    for ys q2 r2 s2
  proof -
    have key: "canonical_key ys = ?key"
      using same by (simp add: canonical_key_def)
    have seen: "multi_chat_histories s1 ?key = Some [(q1, answer r1)]"
      using first fresh by simp
    from query_document_Inr [OF next_query] show ?thesis
      by (auto simp: key seen)
  qed
  show ?thesis
    using first others second by blast
qed

theorem conversation_history_witness:
  "multi_chat_histories demo_queried (canonical_key [''d0'', ''d'']) =
     Some ((case multi_chat_histories demo_ready (canonical_key [''d0'', ''d'']) of
              None \<Rightarrow> [] | Some h \<Rightarrow> h)
           @ [(''capital?'',
               answer \<lparr>answer = ''re: capital?'', sources = [''Paris...'', ''Tokyo...'']\<rparr>)])"
  using conversation_history [OF demo_query_eq] by blast

subsection \<open>The evidence list\<close>

text \<open>
  C7. A successful query searched the resolved index for the question with \<open>k = 4\<close>; the
  search gave the first four chunks of the similarity ranking (all of them when there are
  fewer), and the sources of the response are, in that order, the first 100 characters of
  each chunk followed by three dots.
\<close>

theorem evidence_list:
  assumes "query_document env request s = (Inr r, s1)"
  shows "\<exists>vs s' ranked chunks.
     resolve env (canonical_key (document_ids request)) s = (Inr vs, s') \<and>
     ranking env (heap s' ! vs) (query request) = Some ranked \<and>
     similarity_search env (heap s' ! vs) (query request) 4 = Some chunks \<and>
     chunks = take 4 ranked \<and> length chunks \<le> 4 \<and>
     sources r = map (\<lambda>page_content. take 100 page_content @ ''...'') chunks"
proof -
  obtain vs s' ctx history
    where res: "resolve env (canonical_key (document_ids request)) s = (Inr vs, s')"
      and inv: "qa_chain_invoke env (heap s' ! vs) (query request) history = Inr (answer r, ctx)"
      and src: "sources r = extract_sources ctx"
    using query_document_Inr [OF assms] by blast
  obtain chunks
    where found: "similarity_search env (heap s' ! vs) (query request) 4 = Some chunks"
      and ctx: "ctx = DocList (map Document chunks)"
    using qa_chain_invoke_Inr [OF inv] by blast
  obtain ranked
    where ranked: "ranking env (heap s' ! vs) (query request) = Some ranked"
      and chunks: "chunks = take 4 ranked"
    using found by (auto simp: similarity_search_def)
  have "sources r = map (\<lambda>page_content. take 100 page_content @ ''...'') chunks"
    by (simp add: src ctx comp_def)
  with res ranked found chunks show ?thesis
    by simp
qed

theorem evidence_list_witness:
  "\<exists>vs s' ranked chunks.
     resolve demo_env
       (canonical_key (document_ids \<lparr>document_ids = [''d0'', ''d''], query = ''capital?''\<rparr>))
       demo_ready = (Inr vs, s') \<and>
     ranking demo_env (heap s' ! vs)
       (query \<lparr>document_ids = [''d0'', ''d''], query = ''capital?''\<rparr>) = Some ranked \<and>
     similarity_search demo_env (heap s' ! vs)
       (query \<lparr>document_ids = [''d0'', ''d''], query = ''capital?''\<rparr>) 4 = Some chunks \<and>
     chunks = take 4 ranked \<and> length chunks \<le> 4 \<and>
     sources \<lparr>answer = ''re: capital?'', sources = [''Paris...'', ''Tokyo...'']\<rparr> =
       map (\<lambda>page_content. take 100 page_content @ ''...'') chunks"
  using evidence_list [OF demo_query_eq] .

subsection \<open>Uploads\<close>

text \<open>
  C8, as stated, fails: a file name that ends with \<open>.pdf\<close> and has a directory part is
  not accepted. Line 190 opens \<open>uploads/<id>/sub/a.pdf\<close>, the directory \<open>sub\<close> does not
  exist, and the request ends with the exception of \<open>open\<close>, which is no 400; no id is
  returned, no row is written and no task is scheduled.
\<close>

theorem upload_pdf_name_refused:
  "reachable demo_env demo_start \<and> is_pdf file_sub \<and>
   fst (upload_pdf demo_env [file_sub] demo_start) = Inl OSError \<and>
   fst (snd (upload_pdf demo_env [file_sub] demo_start)) = [] \<and>
   pdf_metadata (after_upload demo_env [file_sub] demo_start) = Map.empty"
  by (simp add: reachable_demo_start demo_files demo_upload_refused after_upload_def)



subsection \<open>The empty list of documents\<close>

text \<open>
  C9. In every reachable state, a query with no document ids has the empty key, which is
  not of length one and is not cached; the list of loaded indexes is empty, so taking its
  first element raises \<open>IndexError\<close>, which is no \<open>HTTPException\<close>, and the state is
  unchanged.
\<close>

theorem empty_query_unhandled:
  assumes "reachable env s"
  shows "canonical_key [] = [] \<and> length (canonical_key []) \<noteq> 1 \<and>
     merged_vector_stores s (canonical_key []) = None \<and>
     load_all (canonical_key []) s = (Inr [], s) \<and>
     query_document env \<lparr>document_ids = [], query = q\<rparr> s = (Inl IndexError, s) \<and>
     (\<forall>status. IndexError \<noteq> HTTPException status)"
proof -
  have key: "canonical_key [] = []"
    by (simp add: canonical_key_def)
  have miss: "merged_vector_stores s [] = None"
    using reachable_well_formed [OF assms] by (simp add: well_formed_def)
  then have "resolve env [] s = (Inl IndexError, s)"
    by (rule resolve_empty)
  then have "query_document env \<lparr>document_ids = [], query = q\<rparr> s = (Inl IndexError, s)"
    by (simp add: query_document_def key)
  with key miss show ?thesis
    by simp
qed

theorem empty_query_unhandled_witness:
  "query_document demo_env \<lparr>document_ids = [], query = ''capital?''\<rparr> demo_queried =
     (Inl IndexError, demo_queried)"
proof -
  have "reachable demo_env demo_queried"
    unfolding demo_queried_def by (intro reachable.query reachable_demo_ready)
  from empty_query_unhandled [OF this] show ?thesis
    by blast
qed

subsection \<open>A batch with an offending file\<close>

text \<open>
  C10, as stated, fails: in a request with the files \<open>sub/a.pdf\<close> and \<open>notes.txt\<close>, the
  second file is the first one without the extension, but the request does not fail with
  400 at it. It ends at the file before, with the exception of \<open>open\<close>, and that file
  has no row in the table and no task.
\<close>

theorem upload_batch_stops_before:
  "reachable demo_env demo_start \<and> is_pdf file_sub \<and> \<not> is_pdf file_txt \<and>
   fst (upload_pdf demo_env [file_sub, file_txt] demo_start) = Inl OSError \<and>
   Inl OSError \<noteq> (Inl (HTTPException 400) :: error + pdf_upload_response list) \<and>
   fst (snd (upload_pdf demo_env [file_sub, file_txt] demo_start)) = [] \<and>
   pdf_metadata (after_upload demo_env [file_sub, file_txt] demo_start) = Map.empty"
  by (simp add: reachable_demo_start demo_files demo_upload_refused after_upload_def)



end
